theory Spec2Isabelle
  imports Complex_Main "HOL-Library.AList" "HOL-Library.Char_ord" "HOL-Library.List_Lexorder"
begin

section \<open>Data model (shared schema)\<close>

text \<open>
  Identifiers are the strings \<open>randomUUID()\<close> returns; a \<open>Date\<close> is its number of
  milliseconds since the epoch. A JavaScript \<open>Map\<close> is the association list of its
  entries in insertion order: \<open>map_of\<close> reads it, \<open>AList.update\<close> is \<open>Map.set\<close>
  (replace in place, or append) and \<open>AList.delete\<close> is \<open>Map.delete\<close>.
  Numbers that the code only compares (confidences, thresholds) are rationals.
\<close>

type_synonym ident = string
type_synonym time = int

datatype 'a js = Undefined | Null | Val 'a

definition truthy :: "string \<Rightarrow> bool" where
  "truthy s = (s \<noteq> [])"

definition truthy_opt :: "string option \<Rightarrow> bool" where
  "truthy_opt v = (case v of None \<Rightarrow> False | Some s \<Rightarrow> truthy s)"

definition truthy_js :: "string js \<Rightarrow> bool" where
  "truthy_js v = (case v of Val s \<Rightarrow> truthy s | _ \<Rightarrow> False)"

record Protocols =
  hls :: bool
  webrtc :: bool

record Layout =
  l_row :: int
  l_col :: int
  l_size :: int

record RecordingPolicy =
  mode :: string
  segmentSeconds :: int
  retainDays :: "int option"

record AnprPolicy =
  enabled :: bool
  sampleEveryNthFrame :: "int option"
  confidenceThreshold :: "rat option"

record Camera =
  cid :: ident
  name :: string
  rtspUrl :: string
  username :: "string option"
  encryptedPassword :: "string js"
  location :: "string option"
  tags :: "string list option"
  enabledProtocols :: "Protocols option"
  layout :: "Layout option"
  recording :: "RecordingPolicy option"
  anpr :: "AnprPolicy option"
  status :: string
  lastSeen :: "time option"
  metadata :: "string option"
  createdAt :: time
  updatedAt :: time
  password :: "string option"

record Recording =
  rid :: ident
  r_cameraId :: ident
  r_date :: time
  startTime :: time
  endTime :: "time option"
  path :: string
  durationSec :: "int option"
  sizeBytes :: "int option"
  format :: string
  r_metadata :: string
  r_createdAt :: time

record BBox =
  bbox_x :: int
  bbox_y :: int
  bbox_width :: int
  bbox_height :: int

record AnprEvent =
  eid :: ident
  e_cameraId :: ident
  timestamp :: time
  plate :: string
  confidence :: rat
  snapshotPath :: string
  bbox :: BBox
  e_metadata :: string
  e_createdAt :: time

section \<open>MemStorage\<close>

record MemStorage =
  cameras :: "(ident \<times> Camera) list"
  recordings :: "(ident \<times> Recording) list"
  anprEvents :: "(ident \<times> AnprEvent) list"

definition getCamera :: "MemStorage \<Rightarrow> ident \<Rightarrow> Camera option" where
  "getCamera st i = map_of (cameras st) i"

text \<open>\<open>getCameras\<close> sorts with \<open>a.name.localeCompare(b.name)\<close>, the collation of
  the process's locale: \<open>collationKey\<close> gives a name the key under which that collation
  files it, and \<open>localeCompare\<close> orders two names as their keys. \<open>Array.sort\<close> is
  stable, as \<open>sort_key\<close> is.\<close>

definition getCameras :: "(string \<Rightarrow> string) \<Rightarrow> MemStorage \<Rightarrow> Camera list" where
  "getCameras collationKey st =
     sort_key (\<lambda>camera. collationKey (name camera)) (map snd (cameras st))"

text \<open>\<open>createAnprEvent\<close>: the fresh id and the clock reading are inputs; a missing
  \<open>metadata\<close> is replaced by the empty object.\<close>

record InsertAnprEvent =
  i_cameraId :: ident
  i_timestamp :: time
  i_plate :: string
  i_confidence :: rat
  i_snapshotPath :: string
  i_bbox :: BBox
  i_metadata :: "string option"

definition createAnprEvent ::
  "ident \<Rightarrow> time \<Rightarrow> InsertAnprEvent \<Rightarrow> MemStorage \<Rightarrow> AnprEvent \<times> MemStorage" where
  "createAnprEvent newId clock ins st =
     (let event = \<lparr> eid = newId, e_cameraId = i_cameraId ins, timestamp = i_timestamp ins,
                     plate = i_plate ins, confidence = i_confidence ins,
                     snapshotPath = i_snapshotPath ins, bbox = i_bbox ins,
                     e_metadata = (case i_metadata ins of None \<Rightarrow> ''{}'' | Some m \<Rightarrow> m),
                     e_createdAt = clock \<rparr>
      in (event, st\<lparr> anprEvents := AList.update newId event (anprEvents st) \<rparr>))"

section \<open>AnprWorker (services/anprWorker)\<close>

subsection \<open>Numbers in template strings and \<open>parseInt\<close>\<close>

definition digit_chars :: string where
  "digit_chars = ''0123456789''"

definition digit_char :: "nat \<Rightarrow> char" where
  "digit_char d = digit_chars ! d"

fun digits :: "nat \<Rightarrow> string" where
  "digits n = (if n < 10 then [digit_char n] else digits (n div 10) @ [digit_char (n mod 10)])"

declare digits.simps [simp del]

definition show_int :: "int \<Rightarrow> string" where
  "show_int i = (if i < 0 then CHR ''-'' # digits (nat (- i)) else digits (nat i))"


definition digit_val :: "char \<Rightarrow> int" where
  "digit_val c = int (of_char c) - 48"



definition is_hex_digit :: "char \<Rightarrow> bool" where
  "is_hex_digit c = (c \<in> set ''0123456789abcdefABCDEF'')"

definition hex_val :: "char \<Rightarrow> int" where
  "hex_val c =
     (let n = int (of_char c)
      in if 97 \<le> n \<and> n \<le> 102 then n - 87
         else if 65 \<le> n \<and> n \<le> 70 then n - 55
         else digit_val c)"





subsection \<open>The worker\<close>

record Detection =
  d_bbox :: BBox
  d_confidence :: rat
  d_metadata :: "string option"

text \<open>What the outside world answers while one detection of a frame is handled: the
  detector's region, the extractor's text (\<open>None\<close> is \<open>null\<close>), \<open>Date.now()\<close> for the
  dedup key, \<open>new Date()\<close> for the event, and the id and \<open>createdAt\<close> the store would
  give the row.\<close>

record PlateRead =
  detection :: Detection
  plateText :: "string option"
  now_key :: time
  now_event :: time
  new_id :: ident
  now_row :: time

record AnprWorker =
  a_storage :: MemStorage
  processingCache :: "(ident \<times> string list) list"
  anpr_emitted :: "(ident \<times> AnprEvent) list"

definition cacheKey :: "string \<Rightarrow> time \<Rightarrow> string" where
  "cacheKey plateTxt t = plateTxt @ ''_'' @ show_int (t div 5000)"

definition threshold_or :: "AnprPolicy \<Rightarrow> rat" where
  "threshold_or a =
     (case confidenceThreshold a of
        None \<Rightarrow> 8 / 10
      | Some t \<Rightarrow> if t = 0 then 8 / 10 else t)"

definition set_add :: "string \<Rightarrow> string list \<Rightarrow> string list" where
  "set_add k ks = (if k \<in> set ks then ks else ks @ [k])"

definition handleDetection ::
  "ident \<Rightarrow> AnprPolicy \<Rightarrow> string \<Rightarrow> PlateRead \<Rightarrow> AnprWorker \<Rightarrow> AnprWorker" where
  "handleDetection cameraId a framePath r w =
     (case plateText r of
        None \<Rightarrow> w
      | Some ptext \<Rightarrow>
          if truthy ptext \<and> threshold_or a \<le> d_confidence (detection r)
          then
            (let cache = map_of (processingCache w) cameraId;
                 key = cacheKey ptext (now_key r)
             in if (case cache of None \<Rightarrow> False | Some ks \<Rightarrow> key \<in> set ks) then w
                else
                  (let pc = (case cache of
                               None \<Rightarrow> processingCache w
                             | Some ks \<Rightarrow>
                                 AList.update cameraId (set_add key ks) (processingCache w));
                       (ev, st) = createAnprEvent (new_id r) (now_row r)
                                    \<lparr> i_cameraId = cameraId, i_timestamp = now_event r,
                                      i_plate = ptext,
                                      i_confidence = d_confidence (detection r),
                                      i_snapshotPath = framePath,
                                      i_bbox = d_bbox (detection r),
                                      i_metadata = d_metadata (detection r) \<rparr>
                                    (a_storage w)
                   in w\<lparr> a_storage := st, processingCache := pc,
                          anpr_emitted := anpr_emitted w @ [(cameraId, ev)] \<rparr>))
          else w)"

text \<open>\<open>processFrame\<close>: \<open>frame\<close> is what \<open>extractFrame\<close> returned and \<open>reads\<close> what
  the detector and the extractor answered, one entry per detection, in order.\<close>

definition processFrame ::
  "ident \<Rightarrow> string option \<Rightarrow> PlateRead list \<Rightarrow> AnprWorker \<Rightarrow> AnprWorker" where
  "processFrame cameraId frame reads w =
     (case getCamera (a_storage w) cameraId of
        None \<Rightarrow> w
      | Some camera \<Rightarrow>
          (case anpr camera of
             None \<Rightarrow> w
           | Some a \<Rightarrow>
               if \<not> enabled a then w
               else (case frame of
                       None \<Rightarrow> w
                     | Some framePath \<Rightarrow>
                         if \<not> truthy framePath then w
                         else fold (handleDetection cameraId a framePath) reads w)))"

text \<open>\<open>processFrame\<close> reads the camera record once, at its start, and then awaits the
  frame extractor, the detector and, for each detection, the text extractor; other
  requests are served during these waits. In \<open>processFrameAmid\<close> every detection comes
  with what those requests did to the store before its row is handled; the policy
  \<open>anpr\<close> is the one captured at the start, as in the source.\<close>

definition handleAmid ::
  "ident \<Rightarrow> AnprPolicy \<Rightarrow> string \<Rightarrow> (MemStorage \<Rightarrow> MemStorage) \<times> PlateRead \<Rightarrow>
     AnprWorker \<Rightarrow> AnprWorker" where
  "handleAmid cameraId a framePath gr w =
     handleDetection cameraId a framePath (snd gr) (w\<lparr> a_storage := fst gr (a_storage w) \<rparr>)"

definition processFrameAmid ::
  "ident \<Rightarrow> string option \<Rightarrow> ((MemStorage \<Rightarrow> MemStorage) \<times> PlateRead) list \<Rightarrow>
     AnprWorker \<Rightarrow> AnprWorker" where
  "processFrameAmid cameraId frame greads w =
     (case getCamera (a_storage w) cameraId of
        None \<Rightarrow> w
      | Some camera \<Rightarrow>
          (case anpr camera of
             None \<Rightarrow> w
           | Some a \<Rightarrow>
               if \<not> enabled a then w
               else (case frame of
                       None \<Rightarrow> w
                     | Some framePath \<Rightarrow>
                         if \<not> truthy framePath then w
                         else fold (handleAmid cameraId a framePath) greads w)))"



text \<open>\<open>startProcessing\<close> gives the camera an empty dedup set (the timer it also starts
  is what later calls \<open>processFrame\<close>); \<open>stopProcessing\<close> drops the set.\<close>

definition stopProcessing :: "ident \<Rightarrow> AnprWorker \<Rightarrow> AnprWorker" where
  "stopProcessing cameraId w = w\<lparr> processingCache := AList.delete cameraId (processingCache w) \<rparr>"

definition startProcessing :: "ident \<Rightarrow> AnprWorker \<Rightarrow> AnprWorker" where
  "startProcessing cameraId w =
     (case getCamera (a_storage w) cameraId of
        None \<Rightarrow> w
      | Some camera \<Rightarrow>
          (case anpr camera of
             None \<Rightarrow> w
           | Some a \<Rightarrow>
               if \<not> enabled a then w
               else (let w1 = stopProcessing cameraId w
                     in w1\<lparr> processingCache := AList.update cameraId [] (processingCache w1) \<rparr>)))"

text \<open>The row \<open>handleDetection\<close> stores for a read, and what it takes for a read to have
  produced a given row.\<close>

definition eventOf :: "ident \<Rightarrow> string \<Rightarrow> string \<Rightarrow> PlateRead \<Rightarrow> AnprEvent" where
  "eventOf cameraId fp ptext r =
     \<lparr> eid = new_id r, e_cameraId = cameraId, timestamp = now_event r, plate = ptext,
       confidence = d_confidence (detection r), snapshotPath = fp, bbox = d_bbox (detection r),
       e_metadata = (case d_metadata (detection r) of None \<Rightarrow> ''{}'' | Some m \<Rightarrow> m),
       e_createdAt = now_row r \<rparr>"

definition accepted_by :: "ident \<Rightarrow> AnprPolicy \<Rightarrow> PlateRead list \<Rightarrow> AnprEvent \<Rightarrow> bool" where
  "accepted_by cameraId a reads e =
     (\<exists>r \<in> set reads. plateText r = Some (plate e) \<and> plate e \<noteq> [] \<and>
         confidence e = d_confidence (detection r) \<and> threshold_or a \<le> confidence e \<and>
         e_cameraId e = cameraId)"







section \<open>Credential encryption (utils/encryption)\<close>

text \<open>
  Buffers and strings are byte lists. The cipher object of the \<open>crypto\<close> module is not part
  of the repository: \<open>sealWith c key text\<close> stands for \<open>createCipher(ALGORITHM, key)\<close>
  followed by \<open>update\<close>, \<open>final\<close> and \<open>getAuthTag\<close> (the ciphertext and the tag), and
  \<open>openWith c key tag ct\<close> for \<open>createDecipher(ALGORITHM, key)\<close>, \<open>setAuthTag\<close>,
  \<open>update\<close> and \<open>final\<close> (\<open>None\<close> when one of them throws). Neither is given an IV,
  as in the source.
\<close>

record Crypto =
  sealWith :: "string \<Rightarrow> string \<Rightarrow> string \<times> string"
  openWith :: "string \<Rightarrow> string \<Rightarrow> string \<Rightarrow> string option"

definition hex_chars :: string where
  "hex_chars = ''0123456789abcdef''"

definition to_hex :: "string \<Rightarrow> string" where
  "to_hex bs = concat (map (\<lambda>b. [hex_chars ! (of_char b div 16), hex_chars ! (of_char b mod 16)]) bs)"

text \<open>\<open>Buffer.from(s, "hex")\<close> decodes pairs of hexadecimal digits and stops at the first
  pair that is not one.\<close>

fun from_hex :: "string \<Rightarrow> string" where
  "from_hex (a # b # r) =
     (if is_hex_digit a \<and> is_hex_digit b
      then char_of (nat (16 * hex_val a + hex_val b)) # from_hex r
      else [])"
| "from_hex _ = []"

fun split_on :: "char \<Rightarrow> string \<Rightarrow> string list" where
  "split_on c [] = [[]]"
| "split_on c (x # xs) =
     (if x = c then [] # split_on c xs
      else (case split_on c xs of [] \<Rightarrow> [[x]] | p # ps \<Rightarrow> (x # p) # ps))"

definition encryptCredentials :: "Crypto \<Rightarrow> string \<Rightarrow> string \<Rightarrow> string \<Rightarrow> string" where
  "encryptCredentials c key iv ptext =
     (let (encrypted, authTag) = sealWith c key ptext
      in to_hex iv @ '':'' @ to_hex authTag @ '':'' @ to_hex encrypted)"

text \<open>A ciphertext with fewer than three fields hands \<open>undefined\<close> to \<open>Buffer.from\<close> or
  to \<open>update\<close>, which throw.\<close>

definition decryptCredentials :: "Crypto \<Rightarrow> string \<Rightarrow> string \<Rightarrow> string option" where
  "decryptCredentials c key encryptedText =
     (case split_on CHR '':'' encryptedText of
        ivHex # authTagHex # encrypted # _ \<Rightarrow>
          (let iv = from_hex ivHex;
               authTag = from_hex authTagHex
           in openWith c key authTag (from_hex encrypted))
      | _ \<Rightarrow> None)"

section \<open>What the outside world answers during one call\<close>

text \<open>
  One value of \<open>Env\<close> holds what a handler is answered while it runs: the clock, the
  id \<open>randomUUID()\<close> returns, the child process \<open>spawn\<close> returns, the results of
  \<open>encryptCredentials\<close> and \<open>decryptCredentials\<close> under the process's key (\<open>None\<close>
  when they throw), whether \<open>new URL\<close> accepts an address, whether \<open>fs.mkdir\<close>
  succeeds, the path built for a new recording and the size \<open>fs.stat\<close> reports
  (\<open>None\<close> when it throws).
\<close>

record Env =
  clock :: time
  fresh_id :: ident
  fresh_pid :: nat
  encrypt :: "string \<Rightarrow> string option"
  decrypt :: "string \<Rightarrow> string option"
  url_ok :: "string \<Rightarrow> bool"
  mkdir_ok :: bool
  out_path :: string
  file_size :: "int option"

datatype error =
    CameraNotFound | AlreadyRecording | DecryptFailed | InvalidUrl | MkdirFailed

section \<open>FFmpegManager (services/ffmpegManager)\<close>

text \<open>Child processes are numbers; \<open>signalled\<close> lists the ones sent \<open>SIGTERM\<close>, in
  order.\<close>

record FFmpegManager =
  streams :: "(ident \<times> nat) list"
  ff_recordings :: "(ident \<times> nat \<times> ident) list"
  signalled :: "nat list"

definition stopStream :: "ident \<Rightarrow> FFmpegManager \<Rightarrow> FFmpegManager" where
  "stopStream cameraId f =
     (case map_of (streams f) cameraId of
        None \<Rightarrow> f
      | Some p \<Rightarrow> f\<lparr> streams := AList.delete cameraId (streams f),
                     signalled := signalled f @ [p] \<rparr>)"

text \<open>Building the RTSP URL with credentials: \<open>decryptCredentials\<close> or \<open>new URL\<close> may
  throw.\<close>

definition buildUrl :: "Env \<Rightarrow> Camera \<Rightarrow> error option" where
  "buildUrl env camera =
     (if truthy_opt (username camera) \<and> truthy_js (encryptedPassword camera)
      then (case encryptedPassword camera of
              Val e \<Rightarrow> (case decrypt env e of
                          None \<Rightarrow> Some DecryptFailed
                        | Some _ \<Rightarrow> if url_ok env (rtspUrl camera) then None else Some InvalidUrl)
            | _ \<Rightarrow> None)
      else None)"

definition startHLSStream ::
  "Env \<Rightarrow> MemStorage \<Rightarrow> ident \<Rightarrow> FFmpegManager \<Rightarrow> error option \<times> FFmpegManager" where
  "startHLSStream env st cameraId f =
     (case getCamera st cameraId of
        None \<Rightarrow> (Some CameraNotFound, f)
      | Some camera \<Rightarrow>
          (let f1 = stopStream cameraId f
           in case buildUrl env camera of
                Some e \<Rightarrow> (Some e, f1)
              | None \<Rightarrow>
                  if \<not> mkdir_ok env then (Some MkdirFailed, f1)
                  else (None, f1\<lparr> streams := AList.update cameraId (fresh_pid env) (streams f1) \<rparr>)))"

definition restartStream ::
  "Env \<Rightarrow> MemStorage \<Rightarrow> ident \<Rightarrow> FFmpegManager \<Rightarrow> error option \<times> FFmpegManager" where
  "restartStream env st cameraId f = startHLSStream env st cameraId (stopStream cameraId f)"

text \<open>The \<open>exit\<close> listener \<open>startHLSStream\<close> puts on the child it spawns: it drops the
  camera's entry of the stream table, whichever child holds it by then, and after an exit
  code other than 0 (\<open>None\<close> is \<open>null\<close>, the code of a child ended by a signal) sets the
  five-second timer that calls \<open>startHLSStream\<close> again; the boolean says whether it
  did.\<close>

definition onStreamExit :: "ident \<Rightarrow> int option \<Rightarrow> FFmpegManager \<Rightarrow> FFmpegManager \<times> bool" where
  "onStreamExit cameraId exitCode f =
     (f\<lparr> streams := AList.delete cameraId (streams f) \<rparr>, exitCode \<noteq> Some 0)"

definition createRecording :: "ident \<Rightarrow> time \<Rightarrow> Recording \<Rightarrow> MemStorage \<Rightarrow> Recording \<times> MemStorage" where
  "createRecording newId now ins st =
     (let r = ins\<lparr> rid := newId, r_createdAt := now \<rparr>
      in (r, st\<lparr> recordings := AList.update newId r (recordings st) \<rparr>))"

definition startRecording ::
  "Env \<Rightarrow> ident \<Rightarrow> MemStorage \<times> FFmpegManager \<Rightarrow>
     (error + Recording) \<times> MemStorage \<times> FFmpegManager" where
  "startRecording env cameraId sf =
     (let (st, f) = sf
      in case getCamera st cameraId of
           None \<Rightarrow> (Inl CameraNotFound, st, f)
         | Some camera \<Rightarrow>
             if map_of (ff_recordings f) cameraId \<noteq> None then (Inl AlreadyRecording, st, f)
             else (case buildUrl env camera of
                     Some e \<Rightarrow> (Inl e, st, f)
                   | None \<Rightarrow>
                       if \<not> mkdir_ok env then (Inl MkdirFailed, st, f)
                       else
                         (let (r, st1) = createRecording (fresh_id env) (clock env)
                                \<lparr> rid = [], r_cameraId = cameraId, r_date = clock env,
                                  startTime = clock env, endTime = None, path = out_path env,
                                  durationSec = None, sizeBytes = None, format = ''mp4'',
                                  r_metadata = ''{}'', r_createdAt = clock env \<rparr> st
                          in (Inr r, st1,
                              f\<lparr> ff_recordings :=
                                   AList.update cameraId (fresh_pid env, rid r) (ff_recordings f) \<rparr>))))"

definition stopRecording ::
  "Env \<Rightarrow> ident \<Rightarrow> MemStorage \<times> FFmpegManager \<Rightarrow> Recording option \<times> MemStorage \<times> FFmpegManager" where
  "stopRecording env cameraId sf =
     (let (st, f) = sf
      in case map_of (ff_recordings f) cameraId of
           None \<Rightarrow> (None, st, f)
         | Some (p, recordingId) \<Rightarrow>
             (let f1 = f\<lparr> ff_recordings := AList.delete cameraId (ff_recordings f),
                          signalled := signalled f @ [p] \<rparr>
              in case map_of (recordings st) recordingId of
                   None \<Rightarrow> (None, st, f1)
                 | Some r \<Rightarrow>
                     (let r1 = r\<lparr> endTime := Some (clock env),
                                  durationSec := Some ((clock env - startTime r) div 1000),
                                  sizeBytes := Some (case file_size env of None \<Rightarrow> 0 | Some n \<Rightarrow> n) \<rparr>
                      in (Some r1, st\<lparr> recordings := AList.update recordingId r1 (recordings st) \<rparr>, f1))))"

subsection \<open>Retention sweep\<close>

text \<open>A \<open>Date\<close> handed to a filter may be an invalid date (\<open>Some None\<close>); every comparison
  with it is false.\<close>

record RecFilters =
  f_cameraId :: "string option"
  f_from :: "time option option"
  f_to :: "time option option"

definition getRecordings :: "RecFilters \<Rightarrow> MemStorage \<Rightarrow> Recording list" where
  "getRecordings fl st =
     (let rs0 = map snd (recordings st);
          rs1 = (case f_cameraId fl of
                   None \<Rightarrow> rs0
                 | Some c \<Rightarrow> if truthy c then filter (\<lambda>r. r_cameraId r = c) rs0 else rs0);
          rs2 = (case f_from fl of
                   None \<Rightarrow> rs1
                 | Some d \<Rightarrow> filter (\<lambda>r. case d of None \<Rightarrow> False | Some t \<Rightarrow> t \<le> startTime r) rs1);
          rs3 = (case f_to fl of
                   None \<Rightarrow> rs2
                 | Some d \<Rightarrow> filter (\<lambda>r. case d of None \<Rightarrow> False | Some t \<Rightarrow> startTime r \<le> t) rs2)
      in sort_key (\<lambda>r. - startTime r) rs3)"

definition deleteRecording :: "ident \<Rightarrow> MemStorage \<Rightarrow> MemStorage" where
  "deleteRecording i st = st\<lparr> recordings := AList.delete i (recordings st) \<rparr>"

text \<open>The files of the disk are the list of their paths; \<open>fs.unlink\<close> throws when the path
  is not there, and the \<open>catch\<close> then skips \<open>deleteRecording\<close>.\<close>

definition unlinkThenDelete :: "Recording \<Rightarrow> MemStorage \<times> string list \<Rightarrow> MemStorage \<times> string list" where
  "unlinkThenDelete r sd =
     (let (st, files) = sd
      in if path r \<in> set files then (deleteRecording (rid r) st, removeAll (path r) files)
         else (st, files))"

definition retainDaysOf :: "Camera \<Rightarrow> int" where
  "retainDaysOf camera =
     (case recording camera of
        None \<Rightarrow> 7
      | Some rp \<Rightarrow> (case retainDays rp of None \<Rightarrow> 7 | Some d \<Rightarrow> if d = 0 then 7 else d))"

text \<open>
  \<open>Date\<close> arithmetic runs in the local time of the process. After ECMAScript, the zone is
  its offset function \<open>LocalTZA\<close>: \<open>tza t True\<close> is the offset in force at the instant
  \<open>t\<close>, and \<open>tza t False\<close> the offset under which the local clock reading \<open>t\<close> is
  taken. A time value beyond \<open>8.64e15\<close> ms is no date (\<open>None\<close>).

  \<open>d.setDate(d.getDate() - n)\<close> takes the local reading of \<open>d\<close>, builds the day
  \<open>n\<close> days before it with the same time of day (\<open>MakeDay\<close> counts a day of the month
  below 1 back into the months before), and reads the result as an instant under the
  offset in force there. Across a change of the offset the cutoff is therefore not
  \<open>n\<close> times 24 hours before \<open>d\<close>.
\<close>

definition localTime :: "(time \<Rightarrow> bool \<Rightarrow> int) \<Rightarrow> time \<Rightarrow> int" where
  "localTime tza t = t + tza t True"

definition utcTime :: "(time \<Rightarrow> bool \<Rightarrow> int) \<Rightarrow> int \<Rightarrow> time" where
  "utcTime tza t = t - tza t False"

definition timeClip :: "int \<Rightarrow> time option" where
  "timeClip t = (if 8640000000000000 < \<bar>t\<bar> then None else Some t)"

definition setDateBack :: "(time \<Rightarrow> bool \<Rightarrow> int) \<Rightarrow> int \<Rightarrow> time \<Rightarrow> time option" where
  "setDateBack tza n t = timeClip (utcTime tza (localTime tza t - n * 86400000))"

definition cutoffDate :: "(time \<Rightarrow> bool \<Rightarrow> int) \<Rightarrow> time \<Rightarrow> Camera \<Rightarrow> time option" where
  "cutoffDate tza now camera = setDateBack tza (retainDaysOf camera) now"

definition cleanupCamera ::
  "(time \<Rightarrow> bool \<Rightarrow> int) \<Rightarrow> time \<Rightarrow> Camera \<Rightarrow> MemStorage \<times> string list \<Rightarrow>
     MemStorage \<times> string list" where
  "cleanupCamera tza now camera sd =
     (let oldRecordings =
            getRecordings \<lparr> f_cameraId = Some (cid camera), f_from = None,
                            f_to = Some (cutoffDate tza now camera) \<rparr> (fst sd)
      in fold unlinkThenDelete oldRecordings sd)"

text \<open>What the process is answered during one sweep: the collation of its locale, its
  time zone, and the clock reading \<open>new Date()\<close> returns in each round of the loop over
  the cameras (round 0 is the first): the rounds before have awaited the store and their
  unlinks, so the readings differ.\<close>

record Host =
  collation :: "string \<Rightarrow> string"
  localTZA :: "time \<Rightarrow> bool \<Rightarrow> int"
  nowAt :: "nat \<Rightarrow> time"

text \<open>The loop over the cameras, each with the number of its round.\<close>

definition sweepRounds ::
  "(time \<Rightarrow> bool \<Rightarrow> int) \<Rightarrow> (nat \<Rightarrow> time) \<Rightarrow> (nat \<times> Camera) list \<Rightarrow>
     MemStorage \<times> string list \<Rightarrow> MemStorage \<times> string list" where
  "sweepRounds tza clk rounds sd =
     fold (\<lambda>nc. cleanupCamera tza (clk (fst nc)) (snd nc)) rounds sd"

definition cleanupOldRecordings :: "Host \<Rightarrow> MemStorage \<times> string list \<Rightarrow> MemStorage \<times> string list" where
  "cleanupOldRecordings h sd =
     sweepRounds (localTZA h) (nowAt h) (enumerate 0 (getCameras (collation h) (fst sd))) sd"

text \<open>The store as \<open>createRecording\<close> builds it: a row is filed under its own id, once.\<close>

definition wfRecordings :: "MemStorage \<Rightarrow> bool" where
  "wfRecordings st =
     (list_all (\<lambda>kr. rid (snd kr) = fst kr) (recordings st) \<and> distinct (map fst (recordings st)))"

section \<open>HealthMonitor (services/healthMonitor)\<close>

record ProbeStatus =
  connected :: bool
  p_fps :: "int option"
  p_bitrate :: "int option"
  p_resolution :: "string option"
  p_error :: "string option"

record CameraStatus =
  cs_id :: ident
  cs_status :: string
  cs_fps :: "int option"
  cs_bitrate :: "int option"
  cs_resolution :: "string option"
  cs_lastError :: "string option"

record HealthMonitor =
  monitoredCameras :: "ident list"
  hm_emitted :: "CameraStatus list"
  hls_requests :: "ident list"

text \<open>\<open>hostname u\<close> is \<open>new URL(u).hostname\<close>, \<open>None\<close> when the constructor throws.\<close>

definition simulateNetworkCheck :: "(string \<Rightarrow> string option) \<Rightarrow> string \<Rightarrow> bool" where
  "simulateNetworkCheck hostname url =
     (case hostname url of
        None \<Rightarrow> False
      | Some h \<Rightarrow> h = ''localhost'' \<or> take 8 h = ''192.168.'')"

definition probeRTSPStream ::
  "(string \<Rightarrow> string option) \<Rightarrow> string \<Rightarrow> string option \<Rightarrow> string js \<Rightarrow> ProbeStatus" where
  "probeRTSPStream hostname url user encPw =
     (if truthy_opt user \<and> truthy_js encPw \<and> hostname url = None
      then \<lparr> connected = False, p_fps = None, p_bitrate = None, p_resolution = None,
             p_error = Some ''Invalid URL'' \<rparr>
      else if simulateNetworkCheck hostname url
      then \<lparr> connected = True, p_fps = Some 25, p_bitrate = Some 2000,
             p_resolution = Some ''1920x1080'', p_error = None \<rparr>
      else \<lparr> connected = False, p_fps = None, p_bitrate = None, p_resolution = None,
             p_error = Some ''Stream unreachable'' \<rparr>)"

definition checkCamera ::
  "(string \<Rightarrow> string option) \<Rightarrow> MemStorage \<Rightarrow> ident \<Rightarrow> HealthMonitor \<Rightarrow> HealthMonitor" where
  "checkCamera hostname st cameraId h =
     (case getCamera st cameraId of
        None \<Rightarrow> h\<lparr> monitoredCameras := removeAll cameraId (monitoredCameras h) \<rparr>
      | Some camera \<Rightarrow>
          (let pst = probeRTSPStream hostname (rtspUrl camera) (username camera)
                       (encryptedPassword camera);
               lastStatus = status camera;
               newStatus = (if connected pst then ''online'' else ''offline'')
           in if lastStatus \<noteq> newStatus
              then
                (let h1 = h\<lparr> hm_emitted := hm_emitted h @
                               [\<lparr> cs_id = cameraId, cs_status = newStatus, cs_fps = p_fps pst,
                                  cs_bitrate = p_bitrate pst, cs_resolution = p_resolution pst,
                                  cs_lastError = p_error pst \<rparr>] \<rparr>
                 in if newStatus = ''online'' \<and> lastStatus \<noteq> ''online''
                    then h1\<lparr> hls_requests := hls_requests h1 @ [cameraId] \<rparr>
                    else h1)
              else h))"

definition checkAllCameras ::
  "(string \<Rightarrow> string option) \<Rightarrow> MemStorage \<Rightarrow> HealthMonitor \<Rightarrow> HealthMonitor" where
  "checkAllCameras hostname st h = fold (checkCamera hostname st) (monitoredCameras h) h"

text \<open>The status one probe derives for a camera record.\<close>

definition derivedStatus :: "(string \<Rightarrow> string option) \<Rightarrow> Camera \<Rightarrow> string" where
  "derivedStatus hostname camera =
     (if connected (probeRTSPStream hostname (rtspUrl camera) (username camera)
                      (encryptedPassword camera))
      then ''online'' else ''offline'')"

section \<open>HTTP routes and WebSocket broadcast (routes)\<close>

datatype Payload =
    PCamera Camera
  | PCameraId ident
  | PRecording ident Recording

text \<open>A frame is the text \<open>JSON.stringify({event, data})\<close>, kept as its two parts.\<close>

record Frame =
  f_event :: string
  f_data :: Payload

text \<open>\<open>wsClients\<close> is the module's set of sockets, each with whether its \<open>readyState\<close> is
  \<open>OPEN\<close>; \<open>outbox\<close> lists what \<open>ws.send\<close> was given, per socket, in order.\<close>

record Server =
  storage :: MemStorage
  ffmpeg :: FFmpegManager
  monitored :: "ident list"
  wsClients :: "(nat \<times> bool) list"
  outbox :: "(nat \<times> Frame) list"

datatype Body = BMessage string | BCamera Camera | BRecording Recording | BEmpty

record Response =
  code :: nat
  body :: Body

definition broadcast :: "string \<Rightarrow> Payload \<Rightarrow> Server \<Rightarrow> Server" where
  "broadcast ev dat s =
     (let message = \<lparr> f_event = ev, f_data = dat \<rparr>
      in s\<lparr> outbox := outbox s @ map (\<lambda>ws. (fst ws, message)) (filter snd (wsClients s)) \<rparr>)"

definition safeCamera :: "Camera \<Rightarrow> Camera" where
  "safeCamera camera =
     camera\<lparr> encryptedPassword := Undefined,
             username := (if truthy_opt (username camera) then Some ''[HIDDEN]'' else None) \<rparr>"

subsection \<open>POST /api/cameras\<close>

record InsertCamera =
  in_name :: string
  in_rtspUrl :: string
  in_username :: "string option"
  in_location :: "string option"
  in_tags :: "string list option"
  in_enabledProtocols :: "Protocols option"
  in_layout :: "Layout option"
  in_recording :: "RecordingPolicy option"
  in_anpr :: "AnprPolicy option"
  in_metadata :: "string option"
  in_password :: "string option"
  in_encryptedPassword :: "string option"

text \<open>\<open>createCamera\<close> spreads what it is given and then sets \<open>id\<close>, \<open>status\<close>,
  \<open>lastSeen\<close>, \<open>metadata\<close>, \<open>encryptedPassword\<close> and the two dates itself.\<close>

definition createCamera :: "ident \<Rightarrow> time \<Rightarrow> InsertCamera \<Rightarrow> MemStorage \<Rightarrow> Camera \<times> MemStorage" where
  "createCamera newId now ins st =
     (let camera = \<lparr> cid = newId, name = in_name ins, rtspUrl = in_rtspUrl ins,
                      username = in_username ins, encryptedPassword = Null,
                      location = in_location ins, tags = in_tags ins,
                      enabledProtocols = in_enabledProtocols ins, layout = in_layout ins,
                      recording = in_recording ins, anpr = in_anpr ins, status = ''offline'',
                      lastSeen = None, metadata = None, createdAt = now, updatedAt = now,
                      password = in_password ins \<rparr>
      in (camera, st\<lparr> cameras := AList.update newId camera (cameras st) \<rparr>))"

text \<open>The handlers encrypt a password only when it is a non-empty string. The result is
  \<open>None\<close> when \<open>encryptCredentials\<close> throws, and otherwise the value of the local
  variable: the ciphertext, or \<open>null\<close> when nothing was encrypted.\<close>

definition encryptIfGiven :: "Env \<Rightarrow> string option \<Rightarrow> string option option" where
  "encryptIfGiven env pw =
     (case pw of
        None \<Rightarrow> Some None
      | Some p \<Rightarrow> if truthy p then map_option Some (encrypt env p) else Some None)"

text \<open>A protocol object of the model always has the key \<open>hls\<close>, so the test before
  \<open>startHLSStream\<close> is whether the camera has a protocol object at all. A failure after
  \<open>createCamera\<close> is answered 400 with the camera already stored and monitored.\<close>

definition post_camera :: "Env \<Rightarrow> InsertCamera option \<Rightarrow> Server \<Rightarrow> Response \<times> Server" where
  "post_camera env parsed s =
     (case parsed of
        None \<Rightarrow> (\<lparr> code = 400, body = BMessage ''Failed to create camera'' \<rparr>, s)
      | Some cameraData \<Rightarrow>
          (case encryptIfGiven env (in_password cameraData) of
             None \<Rightarrow> (\<lparr> code = 400, body = BMessage ''Failed to create camera'' \<rparr>, s)
           | Some encryptedPw \<Rightarrow>
               (let cameraToCreate = cameraData\<lparr> in_password := None,
                                                 in_encryptedPassword :=
                                                   (if truthy_opt encryptedPw then encryptedPw else None) \<rparr>;
                    (camera, st1) = createCamera (fresh_id env) (clock env) cameraToCreate (storage s);
                    s1 = s\<lparr> storage := st1, monitored := set_add (cid camera) (monitored s) \<rparr>;
                    (err, f1) = (if enabledProtocols camera \<noteq> None
                                 then startHLSStream env st1 (cid camera) (ffmpeg s1)
                                 else (None, ffmpeg s1));
                    s2 = s1\<lparr> ffmpeg := f1 \<rparr>
                in case err of
                     Some _ \<Rightarrow> (\<lparr> code = 400, body = BMessage ''Failed to create camera'' \<rparr>, s2)
                   | None \<Rightarrow> (\<lparr> code = 201, body = BCamera (safeCamera camera) \<rparr>,
                              broadcast ''camera-added'' (PCamera camera) s2))))"

subsection \<open>PUT /api/cameras/:id\<close>

text \<open>An update names the fields it carries (\<open>None\<close>: the key is absent); a nullable
  column may be set to \<open>null\<close> (\<open>Some None\<close>).\<close>

record UpdateCamera =
  u_name :: "string option"
  u_rtspUrl :: "string option"
  u_username :: "string option option"
  u_location :: "string option option"
  u_tags :: "string list option option"
  u_enabledProtocols :: "Protocols option option"
  u_layout :: "Layout option option"
  u_recording :: "RecordingPolicy option option"
  u_anpr :: "AnprPolicy option option"
  u_metadata :: "string option option"
  u_password :: "string option"

definition or_keep :: "'a option \<Rightarrow> 'a \<Rightarrow> 'a" where
  "or_keep u old = (case u of None \<Rightarrow> old | Some v \<Rightarrow> v)"

definition spreadUpdates :: "Camera \<Rightarrow> UpdateCamera \<Rightarrow> Camera" where
  "spreadUpdates camera u =
     camera\<lparr> name := or_keep (u_name u) (name camera),
             rtspUrl := or_keep (u_rtspUrl u) (rtspUrl camera),
             username := or_keep (u_username u) (username camera),
             location := or_keep (u_location u) (location camera),
             tags := or_keep (u_tags u) (tags camera),
             enabledProtocols := or_keep (u_enabledProtocols u) (enabledProtocols camera),
             layout := or_keep (u_layout u) (layout camera),
             recording := or_keep (u_recording u) (recording camera),
             anpr := or_keep (u_anpr u) (anpr camera),
             metadata := or_keep (u_metadata u) (metadata camera),
             password := (case u_password u of None \<Rightarrow> password camera | Some p \<Rightarrow> Some p) \<rparr>"

definition updateCamera ::
  "time \<Rightarrow> ident \<Rightarrow> UpdateCamera \<Rightarrow> MemStorage \<Rightarrow> Camera option \<times> MemStorage" where
  "updateCamera now i updates st =
     (case map_of (cameras st) i of
        None \<Rightarrow> (None, st)
      | Some camera \<Rightarrow>
          (let updatedCamera = (spreadUpdates camera updates)\<lparr> updatedAt := now \<rparr>
           in (Some updatedCamera, st\<lparr> cameras := AList.update i updatedCamera (cameras st) \<rparr>)))"

definition restartWanted :: "UpdateCamera \<Rightarrow> bool" where
  "restartWanted updates =
     (truthy_opt (u_rtspUrl updates) \<or>
      (case u_enabledProtocols updates of Some (Some _) \<Rightarrow> True | _ \<Rightarrow> False))"

text \<open>In \<open>put_camera\<close> the ciphertext \<open>encryptedPw\<close> is bound and not used again, as
  the local \<open>encryptedPassword\<close> of the handler.\<close>

definition put_camera :: "Env \<Rightarrow> ident \<Rightarrow> UpdateCamera option \<Rightarrow> Server \<Rightarrow> Response \<times> Server" where
  "put_camera env i parsed s =
     (case parsed of
        None \<Rightarrow> (\<lparr> code = 400, body = BMessage ''Failed to update camera'' \<rparr>, s)
      | Some updates \<Rightarrow>
          (case encryptIfGiven env (u_password updates) of
             None \<Rightarrow> (\<lparr> code = 400, body = BMessage ''Failed to update camera'' \<rparr>, s)
           | Some encryptedPw \<Rightarrow>
               (let finalUpdates =
                      (if truthy_opt (u_password updates) then updates\<lparr> u_password := None \<rparr>
                       else updates);
                    (found, st1) = updateCamera (clock env) i finalUpdates (storage s)
                in case found of
                     None \<Rightarrow> (\<lparr> code = 404, body = BMessage ''Camera not found'' \<rparr>,
                               s\<lparr> storage := st1 \<rparr>)
                   | Some camera \<Rightarrow>
                       (let s1 = s\<lparr> storage := st1 \<rparr>;
                            (err, f1) = (if restartWanted updates
                                         then restartStream env st1 (cid camera) (ffmpeg s1)
                                         else (None, ffmpeg s1));
                            s2 = s1\<lparr> ffmpeg := f1 \<rparr>
                        in case err of
                             Some _ \<Rightarrow> (\<lparr> code = 400, body = BMessage ''Failed to update camera'' \<rparr>, s2)
                           | None \<Rightarrow> (\<lparr> code = 200, body = BCamera (safeCamera camera) \<rparr>,
                                      broadcast ''camera-updated'' (PCamera camera) s2)))))"

text \<open>What \<open>put_camera\<close> hands to \<open>updateCamera\<close>: the update without its password when
  the password is a non-empty string, the update as it is otherwise.\<close>

definition finalUpdatesOf :: "UpdateCamera \<Rightarrow> UpdateCamera" where
  "finalUpdatesOf u = (if truthy_opt (u_password u) then u\<lparr> u_password := None \<rparr> else u)"

text \<open>The frames one \<open>broadcast\<close> call adds to the outbox.\<close>

definition framesFor :: "string \<Rightarrow> Payload \<Rightarrow> Server \<Rightarrow> (nat \<times> Frame) list" where
  "framesFor ev dat s = map (\<lambda>ws. (fst ws, \<lparr> f_event = ev, f_data = dat \<rparr>)) (filter snd (wsClients s))"

subsection \<open>DELETE /api/cameras/:id\<close>

definition deleteCamera :: "ident \<Rightarrow> MemStorage \<Rightarrow> bool \<times> MemStorage" where
  "deleteCamera i st =
     (map_of (cameras st) i \<noteq> None, st\<lparr> cameras := AList.delete i (cameras st) \<rparr>)"

definition removeCamera :: "ident \<Rightarrow> Server \<Rightarrow> Server" where
  "removeCamera i s = s\<lparr> monitored := removeAll i (monitored s) \<rparr>"

definition delete_camera :: "ident \<Rightarrow> Server \<Rightarrow> Response \<times> Server" where
  "delete_camera i s =
     (let (success, st1) = deleteCamera i (storage s);
          s1 = s\<lparr> storage := st1 \<rparr>
      in if \<not> success then (\<lparr> code = 404, body = BMessage ''Camera not found'' \<rparr>, s1)
         else (let s2 = removeCamera i s1;
                   s3 = s2\<lparr> ffmpeg := stopStream i (ffmpeg s2) \<rparr>
               in (\<lparr> code = 204, body = BEmpty \<rparr>,
                   broadcast ''camera-deleted'' (PCameraId i) s3)))"

subsection \<open>POST /api/cameras/:id/start-record\<close>

datatype Auth = NoToken | BadToken | Authenticated

definition start_record :: "Env \<Rightarrow> Auth \<Rightarrow> ident \<Rightarrow> Server \<Rightarrow> Response \<times> Server" where
  "start_record env auth i s =
     (case auth of
        NoToken \<Rightarrow> (\<lparr> code = 401, body = BMessage ''Access token required'' \<rparr>, s)
      | BadToken \<Rightarrow> (\<lparr> code = 403, body = BMessage ''Invalid token'' \<rparr>, s)
      | Authenticated \<Rightarrow>
          (case getCamera (storage s) i of
             None \<Rightarrow> (\<lparr> code = 404, body = BMessage ''Camera not found'' \<rparr>, s)
           | Some camera \<Rightarrow>
               (let (res, st1, f1) = startRecording env i (storage s, ffmpeg s);
                    s1 = s\<lparr> storage := st1, ffmpeg := f1 \<rparr>
                in case res of
                     Inl _ \<Rightarrow> (\<lparr> code = 500, body = BMessage ''Failed to start recording'' \<rparr>, s1)
                   | Inr r \<Rightarrow> (\<lparr> code = 200, body = BRecording r \<rparr>,
                               broadcast ''recording-started'' (PRecording i r) s1))))"

subsection \<open>The server from its start\<close>

text \<open>
  \<open>registerRoutes\<close> starts with an empty \<open>wsClients\<close>. Its \<open>connection\<close> handler logs
  the number of sockets the WebSocket server holds and puts a \<open>close\<close> listener on the
  socket that logs again: neither touches \<open>wsClients\<close>. \<open>connectedAfter\<close> is the set
  \<open>wss.clients\<close> the WebSocket server itself keeps of the sockets that are connected.
\<close>

definition registerRoutes :: "MemStorage \<Rightarrow> FFmpegManager \<Rightarrow> ident list \<Rightarrow> Server" where
  "registerRoutes st f m =
     \<lparr> storage = st, ffmpeg = f, monitored = m, wsClients = [], outbox = [] \<rparr>"

datatype Request =
    WsConnect nat
  | WsClose nat
  | PostCamera Env "InsertCamera option"
  | PutCamera Env ident "UpdateCamera option"
  | DeleteCamera ident
  | StartRecord Env Auth ident

fun serve :: "Request \<Rightarrow> Server \<Rightarrow> Server" where
  "serve (WsConnect ws) s = s"
| "serve (WsClose ws) s = s"
| "serve (PostCamera env parsed) s = snd (post_camera env parsed s)"
| "serve (PutCamera env i parsed) s = snd (put_camera env i parsed s)"
| "serve (DeleteCamera i) s = snd (delete_camera i s)"
| "serve (StartRecord env auth i) s = snd (start_record env auth i s)"

fun connects :: "Request \<Rightarrow> nat list \<Rightarrow> nat list" where
  "connects (WsConnect ws) cs = (if ws \<in> set cs then cs else cs @ [ws])"
| "connects (WsClose ws) cs = removeAll ws cs"
| "connects _ cs = cs"

definition connectedAfter :: "Request list \<Rightarrow> nat list" where
  "connectedAfter reqs = fold connects reqs []"

section \<open>Sample data\<close>

definition demoAnpr :: AnprPolicy where
  "demoAnpr = \<lparr> enabled = True, sampleEveryNthFrame = Some 5, confidenceThreshold = Some (8 / 10) \<rparr>"

definition demoCamera :: Camera where
  "demoCamera =
     \<lparr> cid = ''C1'', name = ''Front Entrance'', rtspUrl = ''rtsp://h/s'', username = Some ''demo'',
       encryptedPassword = Null, location = None, tags = None,
       enabledProtocols = Some \<lparr> hls = True, webrtc = False \<rparr>, layout = None,
       recording = Some \<lparr> mode = ''manual'', segmentSeconds = 6, retainDays = Some 7 \<rparr>,
       anpr = Some demoAnpr, status = ''offline'', lastSeen = None, metadata = None,
       createdAt = 0, updatedAt = 0, password = None \<rparr>"

definition demoStorage :: MemStorage where
  "demoStorage = \<lparr> cameras = [(''C1'', demoCamera)], recordings = [], anprEvents = [] \<rparr>"

definition demoWorker :: AnprWorker where
  "demoWorker = \<lparr> a_storage = demoStorage, processingCache = [(''C1'', [])], anpr_emitted = [] \<rparr>"

definition demoRead :: "rat \<Rightarrow> time \<Rightarrow> ident \<Rightarrow> PlateRead" where
  "demoRead conf t i =
     \<lparr> detection = \<lparr> d_bbox = \<lparr> bbox_x = 0, bbox_y = 0, bbox_width = 100, bbox_height = 40 \<rparr>,
                     d_confidence = conf, d_metadata = None \<rparr>,
       plateText = Some ''ABC1234'', now_key = t, now_event = t, new_id = i, now_row = t \<rparr>"

definition demoEvent :: "rat \<Rightarrow> time \<Rightarrow> ident \<Rightarrow> string \<Rightarrow> AnprEvent" where
  "demoEvent conf t i fp =
     \<lparr> eid = i, e_cameraId = ''C1'', timestamp = t, plate = ''ABC1234'', confidence = conf,
       snapshotPath = fp, bbox = \<lparr> bbox_x = 0, bbox_y = 0, bbox_width = 100, bbox_height = 40 \<rparr>,
       e_metadata = ''{}'', e_createdAt = t \<rparr>"

definition dayMs :: int where
  "dayMs = 86400000"

definition demoRecording :: "ident \<Rightarrow> time \<Rightarrow> time option \<Rightarrow> Recording" where
  "demoRecording i t0 t1 =
     \<lparr> rid = i, r_cameraId = ''C1'', r_date = t0, startTime = t0, endTime = t1,
       path = ''records/C1/'' @ i @ ''.mp4'', durationSec = map_option (\<lambda>t. (t - t0) div 1000) t1,
       sizeBytes = map_option (\<lambda>t. 1024) t1, format = ''mp4'', r_metadata = ''{}'',
       r_createdAt = t0 \<rparr>"

definition demoArchive :: MemStorage where
  "demoArchive =
     demoStorage\<lparr> recordings :=
       [(''R_old'', demoRecording ''R_old'' 0 (Some 60000)),
        (''R_live'', demoRecording ''R_live'' dayMs None),
        (''R_new'', demoRecording ''R_new'' (9 * dayMs) (Some (9 * dayMs + 60000)))] \<rparr>"

definition demoFiles :: "string list" where
  "demoFiles = [''records/C1/R_old.mp4'', ''records/C1/R_live.mp4'', ''records/C1/R_new.mp4'']"

text \<open>A URL parser for the sample addresses: the host is what stands between
  \<open>rtsp://\<close> and the next slash.\<close>

definition demoHostname :: "string \<Rightarrow> string option" where
  "demoHostname u =
     (if take 7 u = ''rtsp://'' then Some (takeWhile (\<lambda>c. c \<noteq> CHR ''/'') (drop 7 u)) else None)"

definition demoMonitor :: HealthMonitor where
  "demoMonitor = \<lparr> monitoredCameras = [''C1''], hm_emitted = [], hls_requests = [] \<rparr>"

definition demoEnv :: Env where
  "demoEnv =
     \<lparr> clock = 10 * dayMs, fresh_id = ''N1'', fresh_pid = 21, encrypt = (\<lambda>p. Some (''iv:tag:'' @ p)),
       decrypt = (\<lambda>e. Some (drop 7 e)), url_ok = (\<lambda>u. take 7 u = ''rtsp://''), mkdir_ok = True,
       out_path = ''records/C1/N1.mp4'', file_size = Some 1024 \<rparr>"

text \<open>A server with camera \<open>C1\<close>: its live child is process 11, process 12 records
  \<open>R_live\<close>, one ANPR event is stored, and \<open>wsClients\<close> is empty, as it always is.\<close>

definition demoServer :: Server where
  "demoServer =
     \<lparr> storage = demoArchive\<lparr> anprEvents := [(''e1'', demoEvent (9 / 10) 1000 ''e1'' ''f1'')] \<rparr>,
       ffmpeg = \<lparr> streams = [(''C1'', 11)], ff_recordings = [(''C1'', 12, ''R_live'')],
                  signalled = [] \<rparr>,
       monitored = [''C1''], wsClients = [], outbox = [] \<rparr>"

text \<open>A host in UTC whose clock stands at day 10 during the whole sweep, and the zone
  \<open>America/New_York\<close> around the end of daylight saving time on 1 November 2026 at
  06:00 UTC (02:00 local time, which then reads 01:00).\<close>

definition demoHost :: Host where
  "demoHost = \<lparr> collation = (\<lambda>n. n), localTZA = (\<lambda>t isUTC. 0), nowAt = (\<lambda>n. 10 * dayMs) \<rparr>"

definition newYork2026 :: "time \<Rightarrow> bool \<Rightarrow> int" where
  "newYork2026 t isUTC =
     (if t < (if isUTC then 1793512800000 else 1793498400000) then - 14400000 else - 18000000)"

definition noUpdates :: UpdateCamera where
  "noUpdates =
     \<lparr> u_name = None, u_rtspUrl = None, u_username = None, u_location = None, u_tags = None,
       u_enabledProtocols = None, u_layout = None, u_recording = None, u_anpr = None,
       u_metadata = None, u_password = None \<rparr>"

definition demoInsert :: InsertCamera where
  "demoInsert =
     \<lparr> in_name = ''Side Gate'', in_rtspUrl = ''rtsp://192.168.1.102/stream1'',
       in_username = Some ''admin'', in_location = None, in_tags = None,
       in_enabledProtocols = Some \<lparr> hls = True, webrtc = False \<rparr>, in_layout = None,
       in_recording = None, in_anpr = None, in_metadata = None, in_password = Some ''secret'',
       in_encryptedPassword = None \<rparr>"

text \<open>A stand-in for the cipher in examples: the ciphertext is the plaintext, the tag is
  the key, and opening succeeds only under the tag that was issued.\<close>

definition toyCrypto :: Crypto where
  "toyCrypto =
     \<lparr> sealWith = (\<lambda>key p. (p, key)),
       openWith = (\<lambda>key tag ct. if tag = key then Some ct else None) \<rparr>"

text \<open>A \<open>PUT\<close> served while a frame is being processed: it raises the confidence
  threshold of \<open>C1\<close> to 0.95.\<close>

definition raiseThreshold :: "MemStorage \<Rightarrow> MemStorage" where
  "raiseThreshold st =
     snd (updateCamera 2000 ''C1''
            (noUpdates\<lparr> u_anpr := Some (Some (demoAnpr\<lparr> confidenceThreshold := Some (95 / 100) \<rparr>)) \<rparr>)
            st)"

text \<open>The record \<open>createCamera\<close> stores for \<open>demoInsert\<close> under \<open>demoEnv\<close>.\<close>

definition demoCreated :: Camera where
  "demoCreated =
     \<lparr> cid = ''N1'', name = ''Side Gate'', rtspUrl = ''rtsp://192.168.1.102/stream1'',
       username = Some ''admin'', encryptedPassword = Null, location = None, tags = None,
       enabledProtocols = Some \<lparr> hls = True, webrtc = False \<rparr>, layout = None,
       recording = None, anpr = None, status = ''offline'', lastSeen = None, metadata = None,
       createdAt = 10 * dayMs, updatedAt = 10 * dayMs, password = None \<rparr>"

section \<open>Properties of the ANPR worker\<close>

lemma set_update_subset: "set (AList.update k v al) \<subseteq> insert (k, v) (set al)"
  by (induction al) auto

lemma handleDetection_cases:
  "handleDetection cameraId a fp r w = w \<or>
   (\<exists>txt. plateText r = Some txt \<and> txt \<noteq> [] \<and> threshold_or a \<le> d_confidence (detection r) \<and>
      anprEvents (a_storage (handleDetection cameraId a fp r w)) =
        AList.update (new_id r) (eventOf cameraId fp txt r) (anprEvents (a_storage w)))"
  by (simp add: handleDetection_def createAnprEvent_def Let_def truthy_def eventOf_def
      split: option.split)

lemma handleDetection_events:
  assumes "ke \<in> set (anprEvents (a_storage (handleDetection cameraId a fp r w)))"
  shows "ke \<in> set (anprEvents (a_storage w)) \<or> accepted_by cameraId a [r] (snd ke)"
proof -
  consider (same) "handleDetection cameraId a fp r w = w"
    | (added) pl where "plateText r = Some pl" "pl \<noteq> []" "threshold_or a \<le> d_confidence (detection r)"
        "anprEvents (a_storage (handleDetection cameraId a fp r w)) =
           AList.update (new_id r) (eventOf cameraId fp pl r) (anprEvents (a_storage w))"
    using handleDetection_cases[of cameraId a fp r w] by blast
  then show ?thesis
  proof cases
    case same
    with assms show ?thesis by simp
  next
    case added
    with assms have "ke \<in> insert (new_id r, eventOf cameraId fp pl r) (set (anprEvents (a_storage w)))"
      using set_update_subset by fastforce
    then show ?thesis
      using added by (auto simp: accepted_by_def eventOf_def)
  qed
qed

lemma handleDetection_cameras:
  "cameras (a_storage (handleDetection cameraId a fp r w)) = cameras (a_storage w)"
  by (auto simp: handleDetection_def createAnprEvent_def Let_def split: option.splits)

lemma fold_handleDetection_events:
  "ke \<in> set (anprEvents (a_storage (fold (handleDetection cameraId a fp) reads w))) \<Longrightarrow>
   ke \<in> set (anprEvents (a_storage w)) \<or> accepted_by cameraId a reads (snd ke)"
proof (induction reads arbitrary: w)
  case Nil
  then show ?case by simp
next
  case (Cons r reads)
  from Cons.IH[of "handleDetection cameraId a fp r w"] Cons.prems
  have "ke \<in> set (anprEvents (a_storage (handleDetection cameraId a fp r w))) \<or>
        accepted_by cameraId a reads (snd ke)" by simp
  then show ?case
    using handleDetection_events[of ke cameraId a fp r w]
    by (auto simp: accepted_by_def)
qed

lemma threshold_or_ge: "confidenceThreshold a = Some t \<Longrightarrow> threshold_or a \<le> c \<Longrightarrow> t \<le> c"
  by (auto simp: threshold_or_def split: if_splits)

lemma handleAmid_events:
  assumes "\<forall>st. ke \<in> set (anprEvents (fst gr st)) \<longrightarrow> ke \<in> set (anprEvents st)"
      and "ke \<in> set (anprEvents (a_storage (handleAmid cameraId a fp gr w)))"
  shows "ke \<in> set (anprEvents (a_storage w)) \<or> accepted_by cameraId a [snd gr] (snd ke)"
proof -
  from assms(2)
  have "ke \<in> set (anprEvents (a_storage (handleDetection cameraId a fp (snd gr)
           (w\<lparr> a_storage := fst gr (a_storage w) \<rparr>))))"
    by (simp add: handleAmid_def)
  from handleDetection_events[OF this]
  have "ke \<in> set (anprEvents (fst gr (a_storage w))) \<or> accepted_by cameraId a [snd gr] (snd ke)"
    by simp
  with assms(1) show ?thesis by blast
qed

lemma accepted_by_Cons:
  "accepted_by cameraId a (r # reads) e \<longleftrightarrow>
     accepted_by cameraId a [r] e \<or> accepted_by cameraId a reads e"
  unfolding accepted_by_def by (simp only: list.set bex_simps) blast

lemma fold_handleAmid_events:
  assumes "\<forall>gr \<in> set greads. \<forall>st. ke \<in> set (anprEvents (fst gr st)) \<longrightarrow> ke \<in> set (anprEvents st)"
      and "ke \<in> set (anprEvents (a_storage (fold (handleAmid cameraId a fp) greads w)))"
  shows "ke \<in> set (anprEvents (a_storage w)) \<or> accepted_by cameraId a (map snd greads) (snd ke)"
  using assms
proof (induction greads arbitrary: w)
  case Nil
  then show ?case by simp
next
  case (Cons gr greads)
  have g: "\<forall>st. ke \<in> set (anprEvents (fst gr st)) \<longrightarrow> ke \<in> set (anprEvents st)"
    using Cons.prems(1) by (simp only: list.set ball_simps) blast
  have gs: "\<forall>gr \<in> set greads. \<forall>st. ke \<in> set (anprEvents (fst gr st)) \<longrightarrow> ke \<in> set (anprEvents st)"
    using Cons.prems(1) by (simp only: list.set ball_simps) blast
  from Cons.prems(2)
  have "ke \<in> set (anprEvents (a_storage (fold (handleAmid cameraId a fp) greads
           (handleAmid cameraId a fp gr w))))" by (simp only: fold_simps)
  from Cons.IH[OF gs this]
  have "ke \<in> set (anprEvents (a_storage (handleAmid cameraId a fp gr w))) \<or>
        accepted_by cameraId a (map snd greads) (snd ke)" .
  then have "ke \<in> set (anprEvents (a_storage w)) \<or> accepted_by cameraId a [snd gr] (snd ke) \<or>
        accepted_by cameraId a (map snd greads) (snd ke)"
    using handleAmid_events[OF g, of cameraId a fp w] by blast
  then have "ke \<in> set (anprEvents (a_storage w)) \<or>
        accepted_by cameraId a (snd gr # map snd greads) (snd ke)"
    using accepted_by_Cons[of cameraId a "snd gr" "map snd greads" "snd ke"] by blast
  then show ?case by (simp only: list.map)
qed

lemma fold_handleAmid_alone:
  "fold (handleAmid cameraId a fp) (map (\<lambda>r. (\<lambda>st. st, r)) reads) v =
   fold (handleDetection cameraId a fp) reads v"
  by (induction reads arbitrary: v) (simp_all add: handleAmid_def)

lemma processFrameAmid_alone:
  "processFrameAmid cameraId frame (map (\<lambda>r. (\<lambda>st. st, r)) reads) w =
   processFrame cameraId frame reads w"
  by (simp add: processFrameAmid_def processFrame_def fold_handleAmid_alone
      split: option.split)

lemma raiseThreshold_events: "anprEvents (raiseThreshold st) = anprEvents st"
  by (simp add: raiseThreshold_def updateCamera_def Let_def split: option.split)

text \<open>
  Claim C1 (amended). Whatever other requests do to the store while a tick waits for the
  frame extractor, the detector and the text extractor, a row that is new after the tick
  and that none of those requests stored comes from a detection of the tick whose text was
  extracted (a non-empty plate) and whose confidence is at least the threshold of the
  camera record the tick read when it started (0.8 when none or 0 is configured), for a
  camera whose ANPR policy was enabled then.
\<close>

theorem processFrameAmid_threshold_read_at_start:
  assumes "(k, e) \<in> set (anprEvents (a_storage (processFrameAmid cameraId frame greads w)))"
      and "(k, e) \<notin> set (anprEvents (a_storage w))"
      and "\<forall>gr \<in> set greads. \<forall>st. (k, e) \<in> set (anprEvents (fst gr st)) \<longrightarrow>
             (k, e) \<in> set (anprEvents st)"
  shows "\<exists>camera a gr. getCamera (a_storage w) cameraId = Some camera \<and> anpr camera = Some a \<and>
            enabled a \<and> gr \<in> set greads \<and> plateText (snd gr) = Some (plate e) \<and> plate e \<noteq> [] \<and>
            confidence e = d_confidence (detection (snd gr)) \<and> e_cameraId e = cameraId \<and>
            threshold_or a \<le> confidence e \<and>
            (\<forall>t. confidenceThreshold a = Some t \<longrightarrow> t \<le> confidence e)"
proof -
  from assms(1,2) obtain camera a fp where
    c: "getCamera (a_storage w) cameraId = Some camera" "anpr camera = Some a" "enabled a"
    and f: "processFrameAmid cameraId frame greads w = fold (handleAmid cameraId a fp) greads w"
    by (auto simp: processFrameAmid_def split: option.splits if_splits)
  from assms(1,2) f fold_handleAmid_events[OF assms(3), of cameraId a fp w]
  have "accepted_by cameraId a (map snd greads) e" by auto
  then obtain gr where r: "gr \<in> set greads" "plateText (snd gr) = Some (plate e)" "plate e \<noteq> []"
      "confidence e = d_confidence (detection (snd gr))" "threshold_or a \<le> confidence e"
      "e_cameraId e = cameraId"
    by (auto simp: accepted_by_def)
  from r(5) have "\<forall>t. confidenceThreshold a = Some t \<longrightarrow> t \<le> confidence e"
    using threshold_or_ge by blast
  with c r show ?thesis by blast
qed

theorem processFrameAmid_threshold_read_at_start_witness:
  "(''e1'', demoEvent (97 / 100) 1000 ''e1'' ''f1'') \<in>
      set (anprEvents (a_storage (processFrameAmid ''C1'' (Some ''f1'')
             [(raiseThreshold, demoRead (97 / 100) 1000 ''e1'')] demoWorker))) \<and>
   (''e1'', demoEvent (97 / 100) 1000 ''e1'' ''f1'') \<notin> set (anprEvents (a_storage demoWorker)) \<and>
   getCamera (a_storage demoWorker) ''C1'' = Some demoCamera \<and>
   confidenceThreshold demoAnpr = Some (8 / 10) \<and>
   (8 / 10 :: rat) \<le> confidence (demoEvent (97 / 100) 1000 ''e1'' ''f1'')"
proof -
  let ?e = "demoEvent (97 / 100) 1000 ''e1'' ''f1''"
  let ?greads = "[(raiseThreshold, demoRead (97 / 100) 1000 ''e1'')]"
  have h0: "\<forall>gr \<in> set ?greads. \<forall>st. (''e1'', ?e) \<in> set (anprEvents (fst gr st)) \<longrightarrow>
      (''e1'', ?e) \<in> set (anprEvents st)"
    by (simp add: raiseThreshold_events)
  have h1: "(''e1'', ?e) \<in>
      set (anprEvents (a_storage (processFrameAmid ''C1'' (Some ''f1'') ?greads demoWorker)))"
    by (simp add: processFrameAmid_def handleAmid_def handleDetection_def createAnprEvent_def
        getCamera_def raiseThreshold_events demoWorker_def demoStorage_def demoCamera_def
        demoAnpr_def demoRead_def demoEvent_def truthy_def threshold_or_def Let_def)
  have h2: "(''e1'', ?e) \<notin> set (anprEvents (a_storage demoWorker))"
    by (simp add: demoWorker_def demoStorage_def)
  have cam: "getCamera (a_storage demoWorker) ''C1'' = Some demoCamera"
    by (simp add: getCamera_def demoWorker_def demoStorage_def)
  have thr: "confidenceThreshold demoAnpr = Some (8 / 10)" by (simp add: demoAnpr_def)
  from processFrameAmid_threshold_read_at_start[OF h1 h2 h0] obtain camera a where
    c: "getCamera (a_storage demoWorker) ''C1'' = Some camera" "anpr camera = Some a"
    and t: "\<forall>t. confidenceThreshold a = Some t \<longrightarrow> t \<le> confidence ?e"
    by blast
  from c(1) cam have "camera = demoCamera" by simp
  moreover have "anpr demoCamera = Some demoAnpr" by (simp add: demoCamera_def)
  ultimately have "a = demoAnpr" using c(2) by simp
  with t thr have "(8 / 10 :: rat) \<le> confidence ?e" by blast
  with h1 h2 cam thr show ?thesis by blast
qed

text \<open>
  Claim C1 as stated fails when the threshold changes while a frame is being processed.
  The tick reads camera \<open>C1\<close> with threshold 0.8; before the row of its detection is
  stored a \<open>PUT\<close> raises the threshold to 0.95; the detection of confidence 0.85 is
  compared with the 0.8 read at the start and stored. The camera's threshold when the row
  is created, and ever after, is 0.95.
\<close>

theorem processFrameAmid_stale_threshold_counterexample:
  "map_option anpr (getCamera (a_storage demoWorker) ''C1'') = Some (Some demoAnpr) \<and>
   confidenceThreshold demoAnpr = Some (8 / 10) \<and>
   map_option anpr (getCamera (raiseThreshold (a_storage demoWorker)) ''C1'') =
     Some (Some (demoAnpr\<lparr> confidenceThreshold := Some (95 / 100) \<rparr>)) \<and>
   anprEvents (a_storage (processFrameAmid ''C1'' (Some ''f1'')
       [(raiseThreshold, demoRead (85 / 100) 1000 ''e1'')] demoWorker)) =
     [(''e1'', demoEvent (85 / 100) 1000 ''e1'' ''f1'')] \<and>
   map_option anpr (getCamera (a_storage (processFrameAmid ''C1'' (Some ''f1'')
       [(raiseThreshold, demoRead (85 / 100) 1000 ''e1'')] demoWorker)) ''C1'') =
     Some (Some (demoAnpr\<lparr> confidenceThreshold := Some (95 / 100) \<rparr>)) \<and>
   confidence (demoEvent (85 / 100) 1000 ''e1'' ''f1'') < 95 / 100"
  by (simp add: processFrameAmid_def handleAmid_def handleDetection_def createAnprEvent_def
      getCamera_def raiseThreshold_def updateCamera_def spreadUpdates_def or_keep_def noUpdates_def
      demoWorker_def demoStorage_def demoCamera_def demoAnpr_def demoRead_def demoEvent_def
      truthy_def threshold_or_def Let_def)

subsection \<open>The dedup filter\<close>



































section \<open>Properties of the retention sweep\<close>

lemma set_delete: "set (AList.delete k al) = {kv \<in> set al. fst kv \<noteq> k}"
  by (induction al) auto

lemma unlinkThenDelete_shrinks:
  "set (recordings (fst (unlinkThenDelete r sd))) \<subseteq> set (recordings (fst sd))"
  "set (snd (unlinkThenDelete r sd)) \<subseteq> set (snd sd)"
  "cameras (fst (unlinkThenDelete r sd)) = cameras (fst sd)"
  by (cases sd; auto simp: unlinkThenDelete_def deleteRecording_def set_delete)+

lemma unlinkThenDelete_removed:
  assumes "kr \<in> set (recordings (fst sd))"
      and "kr \<notin> set (recordings (fst (unlinkThenDelete r sd)))"
  shows "fst kr = rid r \<and> path r \<in> set (snd sd) \<and> path r \<notin> set (snd (unlinkThenDelete r sd))"
  using assms
  by (cases sd) (auto simp: unlinkThenDelete_def deleteRecording_def set_delete split: if_splits)

lemma fold_unlinkThenDelete_shrinks:
  "set (recordings (fst (fold unlinkThenDelete rs sd))) \<subseteq> set (recordings (fst sd)) \<and>
   set (snd (fold unlinkThenDelete rs sd)) \<subseteq> set (snd sd) \<and>
   cameras (fst (fold unlinkThenDelete rs sd)) = cameras (fst sd)"
proof (induction rs arbitrary: sd)
  case Nil
  then show ?case by simp
next
  case (Cons r rs)
  from Cons.IH[of "unlinkThenDelete r sd"] unlinkThenDelete_shrinks[of r sd]
  show ?case by auto
qed

lemma fold_unlinkThenDelete_removed:
  assumes "kr \<in> set (recordings (fst sd))"
      and "kr \<notin> set (recordings (fst (fold unlinkThenDelete rs sd)))"
  shows "\<exists>r \<in> set rs. fst kr = rid r \<and> path r \<in> set (snd sd) \<and>
           path r \<notin> set (snd (fold unlinkThenDelete rs sd))"
  using assms
proof (induction rs arbitrary: sd)
  case Nil
  then show ?case by simp
next
  case (Cons r rs)
  show ?case
  proof (cases "kr \<in> set (recordings (fst (unlinkThenDelete r sd)))")
    case True
    from Cons.IH[OF True] Cons.prems(2)
    obtain r' where "r' \<in> set rs" "fst kr = rid r'" "path r' \<in> set (snd (unlinkThenDelete r sd))"
      "path r' \<notin> set (snd (fold unlinkThenDelete rs (unlinkThenDelete r sd)))"
      by auto
    then show ?thesis using unlinkThenDelete_shrinks(2)[of r sd] by auto
  next
    case False
    from unlinkThenDelete_removed[OF Cons.prems(1) False]
    have "fst kr = rid r" "path r \<in> set (snd sd)" "path r \<notin> set (snd (unlinkThenDelete r sd))"
      by simp_all
    moreover have "set (snd (fold unlinkThenDelete rs (unlinkThenDelete r sd)))
                   \<subseteq> set (snd (unlinkThenDelete r sd))"
      using fold_unlinkThenDelete_shrinks by blast
    ultimately show ?thesis by auto
  qed
qed

lemma getRecordings_by_camera:
  assumes "r \<in> set (getRecordings \<lparr> f_cameraId = Some c, f_from = None, f_to = Some d \<rparr> st)"
      and "c \<noteq> []"
  shows "r \<in> snd ` set (recordings st) \<and> r_cameraId r = c \<and> (\<exists>t. d = Some t \<and> startTime r \<le> t)"
  using assms by (auto simp: getRecordings_def truthy_def Let_def split: option.splits)

lemma cleanupCamera_shrinks:
  "set (recordings (fst (cleanupCamera tza now camera sd))) \<subseteq> set (recordings (fst sd)) \<and>
   set (snd (cleanupCamera tza now camera sd)) \<subseteq> set (snd sd) \<and>
   cameras (fst (cleanupCamera tza now camera sd)) = cameras (fst sd)"
  unfolding cleanupCamera_def Let_def by (rule fold_unlinkThenDelete_shrinks)

lemma cleanupCamera_removed:
  assumes "kr \<in> set (recordings (fst sd))"
      and "kr \<notin> set (recordings (fst (cleanupCamera tza now camera sd)))"
      and "cid camera \<noteq> []"
  shows "\<exists>r \<in> snd ` set (recordings (fst sd)). fst kr = rid r \<and> r_cameraId r = cid camera \<and>
           (\<exists>t. cutoffDate tza now camera = Some t \<and> startTime r \<le> t) \<and>
           path r \<in> set (snd sd) \<and> path r \<notin> set (snd (cleanupCamera tza now camera sd))"
proof -
  from assms(2) fold_unlinkThenDelete_removed[OF assms(1)]
  obtain r where r: "r \<in> set (getRecordings \<lparr> f_cameraId = Some (cid camera), f_from = None,
                            f_to = Some (cutoffDate tza now camera) \<rparr> (fst sd))"
     "fst kr = rid r" "path r \<in> set (snd sd)" "path r \<notin> set (snd (cleanupCamera tza now camera sd))"
    unfolding cleanupCamera_def Let_def by blast
  from getRecordings_by_camera[OF r(1) assms(3)] r(2,3,4) show ?thesis by blast
qed

lemma sweepRounds_Nil [simp]: "sweepRounds tza clk [] sd = sd"
  by (simp add: sweepRounds_def)

lemma sweepRounds_Cons [simp]:
  "sweepRounds tza clk (nc # rounds) sd =
     sweepRounds tza clk rounds (cleanupCamera tza (clk (fst nc)) (snd nc) sd)"
  by (simp add: sweepRounds_def)

lemma sweepRounds_shrinks:
  "set (recordings (fst (sweepRounds tza clk rounds sd))) \<subseteq> set (recordings (fst sd)) \<and>
   set (snd (sweepRounds tza clk rounds sd)) \<subseteq> set (snd sd)"
proof (induction rounds arbitrary: sd)
  case Nil
  then show ?case by simp
next
  case (Cons nc rounds)
  from Cons.IH[of "cleanupCamera tza (clk (fst nc)) (snd nc) sd"]
    cleanupCamera_shrinks[of tza "clk (fst nc)" "snd nc" sd]
  show ?case by auto
qed

lemma sweepRounds_removed:
  assumes "kr \<in> set (recordings (fst sd))"
      and "kr \<notin> set (recordings (fst (sweepRounds tza clk rounds sd)))"
      and "\<forall>nc \<in> set rounds. cid (snd nc) \<noteq> []"
  shows "\<exists>nc \<in> set rounds. \<exists>r \<in> snd ` set (recordings (fst sd)).
           fst kr = rid r \<and> r_cameraId r = cid (snd nc) \<and>
           (\<exists>t. cutoffDate tza (clk (fst nc)) (snd nc) = Some t \<and> startTime r \<le> t) \<and>
           path r \<in> set (snd sd) \<and> path r \<notin> set (snd (sweepRounds tza clk rounds sd))"
  using assms
proof (induction rounds arbitrary: sd)
  case Nil
  then show ?case by simp
next
  case (Cons nc rounds)
  let ?sd1 = "cleanupCamera tza (clk (fst nc)) (snd nc) sd"
  from Cons.prems(3) have c: "cid (snd nc) \<noteq> []" and cs: "\<forall>nc \<in> set rounds. cid (snd nc) \<noteq> []"
    by simp_all
  show ?case
  proof (cases "kr \<in> set (recordings (fst ?sd1))")
    case True
    from Cons.IH[OF True _ cs] Cons.prems(2)
    obtain nc' r where f: "nc' \<in> set rounds" "r \<in> snd ` set (recordings (fst ?sd1))"
      "fst kr = rid r" "r_cameraId r = cid (snd nc')"
      "\<exists>t. cutoffDate tza (clk (fst nc')) (snd nc') = Some t \<and> startTime r \<le> t"
      "path r \<in> set (snd ?sd1)" "path r \<notin> set (snd (sweepRounds tza clk rounds ?sd1))"
      by auto
    have "snd ` set (recordings (fst ?sd1)) \<subseteq> snd ` set (recordings (fst sd))"
      "set (snd ?sd1) \<subseteq> set (snd sd)"
      using cleanupCamera_shrinks[of tza "clk (fst nc)" "snd nc" sd] by auto
    with f have g: "r \<in> snd ` set (recordings (fst sd))" "path r \<in> set (snd sd)" by blast+
    have "\<exists>nc'' \<in> set (nc # rounds). \<exists>r \<in> snd ` set (recordings (fst sd)).
           fst kr = rid r \<and> r_cameraId r = cid (snd nc'') \<and>
           (\<exists>t. cutoffDate tza (clk (fst nc'')) (snd nc'') = Some t \<and> startTime r \<le> t) \<and>
           path r \<in> set (snd sd) \<and> path r \<notin> set (snd (sweepRounds tza clk rounds ?sd1))"
      using f g by (intro bexI[of _ nc'] bexI[of _ r]) simp_all
    then show ?thesis by simp
  next
    case False
    from cleanupCamera_removed[OF Cons.prems(1) False c]
    obtain r where r: "r \<in> snd ` set (recordings (fst sd))" "fst kr = rid r"
      "r_cameraId r = cid (snd nc)"
      "\<exists>t. cutoffDate tza (clk (fst nc)) (snd nc) = Some t \<and> startTime r \<le> t"
      "path r \<in> set (snd sd)" "path r \<notin> set (snd ?sd1)" by blast
    moreover have "set (snd (sweepRounds tza clk rounds ?sd1)) \<subseteq> set (snd ?sd1)"
      using sweepRounds_shrinks by blast
    ultimately have "\<exists>nc'' \<in> set (nc # rounds). \<exists>r \<in> snd ` set (recordings (fst sd)).
           fst kr = rid r \<and> r_cameraId r = cid (snd nc'') \<and>
           (\<exists>t. cutoffDate tza (clk (fst nc'')) (snd nc'') = Some t \<and> startTime r \<le> t) \<and>
           path r \<in> set (snd sd) \<and> path r \<notin> set (snd (sweepRounds tza clk rounds ?sd1))"
      by (intro bexI[of _ nc] bexI[of _ r]) auto
    then show ?thesis by simp
  qed
qed

lemma wf_unique_row:
  assumes "wfRecordings st" and "(k, r) \<in> set (recordings st)"
      and "r' \<in> snd ` set (recordings st)" and "k = rid r'"
  shows "r' = r"
proof -
  from assms(3) obtain k' where k': "(k', r') \<in> set (recordings st)" by auto
  with assms(1) have "rid r' = k'" by (auto simp: wfRecordings_def list_all_iff)
  with assms(4) k' have "(k, r') \<in> set (recordings st)" by simp
  moreover from assms(1) have "distinct (map fst (recordings st))" by (simp add: wfRecordings_def)
  ultimately show ?thesis using assms(2) by (meson eq_key_imp_eq_value)
qed

lemma unlinkThenDelete_keeps_file:
  assumes "path r' \<noteq> path r" and "path r \<in> set (snd sd)"
  shows "path r \<in> set (snd (unlinkThenDelete r' sd))"
  using assms by (cases sd) (auto simp: unlinkThenDelete_def)

lemma unlinkThenDelete_hits:
  assumes "path r \<in> set (snd sd)" and "fst kr = rid r"
  shows "kr \<notin> set (recordings (fst (unlinkThenDelete r sd)))"
  using assms by (cases sd) (auto simp: unlinkThenDelete_def deleteRecording_def set_delete)

lemma fold_unlinkThenDelete_stays_removed:
  assumes "kr \<notin> set (recordings (fst sd))"
  shows "kr \<notin> set (recordings (fst (fold unlinkThenDelete rs sd)))"
  using assms fold_unlinkThenDelete_shrinks[of rs sd] by blast

lemma fold_unlinkThenDelete_hits:
  assumes "\<forall>r' \<in> set rs. path r' = path r \<longrightarrow> r' = r"
      and "path r \<in> set (snd sd)" and "fst kr = rid r"
  shows "(r \<in> set rs \<longrightarrow> kr \<notin> set (recordings (fst (fold unlinkThenDelete rs sd)))) \<and>
         (r \<notin> set rs \<longrightarrow> path r \<in> set (snd (fold unlinkThenDelete rs sd)))"
  using assms
proof (induction rs arbitrary: sd)
  case Nil
  then show ?case by simp
next
  case (Cons r' rs)
  show ?case
  proof (cases "r' = r")
    case True
    have "kr \<notin> set (recordings (fst (unlinkThenDelete r sd)))"
      using unlinkThenDelete_hits[OF Cons.prems(2,3)] .
    then have "kr \<notin> set (recordings (fst (fold unlinkThenDelete rs (unlinkThenDelete r sd))))"
      by (rule fold_unlinkThenDelete_stays_removed)
    with True show ?thesis by simp
  next
    case False
    with Cons.prems(1) have "path r' \<noteq> path r" by auto
    then have "path r \<in> set (snd (unlinkThenDelete r' sd))"
      using Cons.prems(2) by (rule unlinkThenDelete_keeps_file)
    moreover from Cons.prems(1) have "\<forall>x \<in> set rs. path x = path r \<longrightarrow> x = r" by simp
    ultimately show ?thesis
      using Cons.IH[of "unlinkThenDelete r' sd"] Cons.prems(3) False by auto
  qed
qed

lemma getRecordings_subset:
  "set (getRecordings fl st) \<subseteq> snd ` set (recordings st)"
  by (auto simp: getRecordings_def Let_def split: option.splits if_splits)

lemma getRecordings_has:
  assumes "(k, r) \<in> set (recordings st)" and "r_cameraId r = c" and "startTime r \<le> t"
  shows "r \<in> set (getRecordings \<lparr> f_cameraId = Some c, f_from = None, f_to = Some (Some t) \<rparr> st)"
  using assms by (force simp: getRecordings_def Let_def)

text \<open>While the row is stored, its file is on disk.\<close>

lemma cleanupCamera_file_or_gone:
  assumes "\<forall>r' \<in> snd ` set (recordings (fst sd)). path r' = path r \<longrightarrow> r' = r"
      and "path r \<in> set (snd sd)" and "k = rid r"
  shows "(k, r) \<notin> set (recordings (fst (cleanupCamera tza now camera sd))) \<or>
         path r \<in> set (snd (cleanupCamera tza now camera sd))"
proof -
  let ?rs = "getRecordings \<lparr> f_cameraId = Some (cid camera), f_from = None,
                             f_to = Some (cutoffDate tza now camera) \<rparr> (fst sd)"
  have "\<forall>r' \<in> set ?rs. path r' = path r \<longrightarrow> r' = r"
    using assms(1) getRecordings_subset by blast
  from fold_unlinkThenDelete_hits[OF this assms(2), of "(k, r)"] assms(3)
  show ?thesis unfolding cleanupCamera_def Let_def by auto
qed

lemma cleanupCamera_hits:
  assumes "\<forall>r' \<in> snd ` set (recordings (fst sd)). path r' = path r \<longrightarrow> r' = r"
      and "path r \<in> set (snd sd)" and "k = rid r"
      and "(k, r) \<in> set (recordings (fst sd))"
      and "r_cameraId r = cid camera"
      and "cutoffDate tza now camera = Some t" and "startTime r \<le> t"
  shows "(k, r) \<notin> set (recordings (fst (cleanupCamera tza now camera sd)))"
proof -
  let ?rs = "getRecordings \<lparr> f_cameraId = Some (cid camera), f_from = None,
                             f_to = Some (cutoffDate tza now camera) \<rparr> (fst sd)"
  have d: "\<forall>r' \<in> set ?rs. path r' = path r \<longrightarrow> r' = r"
    using assms(1) getRecordings_subset by blast
  have "r \<in> set ?rs" using getRecordings_has[OF assms(4,5,7)] assms(6) by simp
  with fold_unlinkThenDelete_hits[OF d assms(2), of "(k, r)"] assms(3)
  show ?thesis unfolding cleanupCamera_def Let_def by auto
qed

lemma sweepRounds_hits:
  assumes "\<forall>r' \<in> snd ` set (recordings (fst sd)). path r' = path r \<longrightarrow> r' = r"
      and "(k, r) \<in> set (recordings (fst sd)) \<longrightarrow> path r \<in> set (snd sd)" and "k = rid r"
      and "\<exists>nc \<in> set rounds. r_cameraId r = cid (snd nc) \<and>
             (\<exists>t. cutoffDate tza (clk (fst nc)) (snd nc) = Some t \<and> startTime r \<le> t)"
  shows "(k, r) \<notin> set (recordings (fst (sweepRounds tza clk rounds sd)))"
  using assms
proof (induction rounds arbitrary: sd)
  case Nil
  then show ?case by simp
next
  case (Cons nc rounds)
  let ?sd1 = "cleanupCamera tza (clk (fst nc)) (snd nc) sd"
  have sub: "set (recordings (fst ?sd1)) \<subseteq> set (recordings (fst sd))"
    using cleanupCamera_shrinks[of tza "clk (fst nc)" "snd nc" sd] by blast
  show ?case
  proof (cases "(k, r) \<in> set (recordings (fst sd))")
    case False
    then have "(k, r) \<notin> set (recordings (fst ?sd1))" using sub by blast
    then have "(k, r) \<notin> set (recordings (fst (sweepRounds tza clk rounds ?sd1)))"
      using sweepRounds_shrinks[of tza clk rounds ?sd1] by blast
    then show ?thesis by simp
  next
    case True
    with Cons.prems(2) have onDisk: "path r \<in> set (snd sd)" by simp
    show ?thesis
    proof (cases "r_cameraId r = cid (snd nc) \<and>
        (\<exists>t. cutoffDate tza (clk (fst nc)) (snd nc) = Some t \<and> startTime r \<le> t)")
      case True
      then obtain t where t: "r_cameraId r = cid (snd nc)"
        "cutoffDate tza (clk (fst nc)) (snd nc) = Some t" "startTime r \<le> t" by blast
      from cleanupCamera_hits[OF Cons.prems(1) onDisk Cons.prems(3)
          \<open>(k, r) \<in> set (recordings (fst sd))\<close> t]
      have "(k, r) \<notin> set (recordings (fst ?sd1))" .
      then have "(k, r) \<notin> set (recordings (fst (sweepRounds tza clk rounds ?sd1)))"
        using sweepRounds_shrinks[of tza clk rounds ?sd1] by blast
      then show ?thesis by simp
    next
      case False
      with Cons.prems(4) have m: "\<exists>nc \<in> set rounds. r_cameraId r = cid (snd nc) \<and>
          (\<exists>t. cutoffDate tza (clk (fst nc)) (snd nc) = Some t \<and> startTime r \<le> t)" by auto
      have d: "\<forall>r' \<in> snd ` set (recordings (fst ?sd1)). path r' = path r \<longrightarrow> r' = r"
        using Cons.prems(1) sub by blast
      have f: "(k, r) \<in> set (recordings (fst ?sd1)) \<longrightarrow> path r \<in> set (snd ?sd1)"
        using cleanupCamera_file_or_gone[OF Cons.prems(1) onDisk Cons.prems(3)] by blast
      from Cons.IH[OF d f Cons.prems(3) m] show ?thesis by simp
    qed
  qed
qed

lemma distinct_paths_unique:
  assumes "distinct (map (\<lambda>kr. path (snd kr)) (recordings st))" and "(k, r) \<in> set (recordings st)"
  shows "\<forall>r' \<in> snd ` set (recordings st). path r' = path r \<longrightarrow> r' = r"
proof (intro ballI impI)
  fix r' assume "r' \<in> snd ` set (recordings st)" and p: "path r' = path r"
  then obtain k' where k': "(k', r') \<in> set (recordings st)" by auto
  from assms(1) have inj: "inj_on (\<lambda>kr. path (snd kr)) (set (recordings st))"
    by (simp add: distinct_map)
  have "(\<lambda>kr. path (snd kr)) (k', r') = (\<lambda>kr. path (snd kr)) (k, r)" using p by simp
  from inj_onD[OF inj this k' assms(2)] show "r' = r" by simp
qed

lemma getCameras_set: "set (getCameras key st) = snd ` set (cameras st)"
  by (simp add: getCameras_def)

lemma rounds_cameras: "snd ` set (enumerate n cams) = set cams"
  by (metis list.set_map map_snd_enumerate)

text \<open>Across the end of daylight saving time the cutoff of a seven-day retention lies
  seven days and one hour before the clock reading.\<close>

lemma cutoffDate_newYork2026:
  "cutoffDate newYork2026 1793707200000 demoCamera = Some 1793098800000 \<and>
   1793707200000 - 7 * dayMs = (1793102400000 :: int)"
  by (simp add: cutoffDate_def setDateBack_def timeClip_def utcTime_def localTime_def
      retainDaysOf_def newYork2026_def demoCamera_def dayMs_def)

text \<open>
  Claim C3 (amended). In a store whose rows are filed under their own ids and have
  distinct paths, the sweep deletes exactly the rows of the recordings that, in some round
  of its loop, belong to the round's camera, started at or before the cutoff of that round
  (the round's clock reading set back by \<open>retainDays\<close> local days) and have their file on
  disk; the file is removed with the row, and no other row is removed or changed. Whether
  \<open>endTime\<close> is set plays no part.
\<close>

theorem retention_deletes_only_expired:
  assumes "wfRecordings st" and "list_all (\<lambda>camera. cid camera \<noteq> []) (map snd (cameras st))"
      and "distinct (map (\<lambda>kr. path (snd kr)) (recordings st))"
      and "(k, r) \<in> set (recordings st)"
  shows "((k, r) \<notin> set (recordings (fst (cleanupOldRecordings h (st, files)))) \<longleftrightarrow>
            (\<exists>nc \<in> set (enumerate 0 (getCameras (collation h) st)).
                r_cameraId r = cid (snd nc) \<and>
                (\<exists>t. cutoffDate (localTZA h) (nowAt h (fst nc)) (snd nc) = Some t \<and>
                     startTime r \<le> t)) \<and>
            path r \<in> set files) \<and>
         ((k, r) \<notin> set (recordings (fst (cleanupOldRecordings h (st, files)))) \<longrightarrow>
            path r \<notin> set (snd (cleanupOldRecordings h (st, files)))) \<and>
         set (recordings (fst (cleanupOldRecordings h (st, files)))) \<subseteq> set (recordings st)"
proof -
  let ?rounds = "enumerate 0 (getCameras (collation h) st)"
  have run: "cleanupOldRecordings h (st, files) =
      sweepRounds (localTZA h) (nowAt h) ?rounds (st, files)"
    by (simp add: cleanupOldRecordings_def)
  have "snd ` set ?rounds = snd ` set (cameras st)"
    using rounds_cameras[of 0 "getCameras (collation h) st"] getCameras_set by simp
  with assms(2) have ids: "\<forall>nc \<in> set ?rounds. cid (snd nc) \<noteq> []"
    by (force simp: list_all_iff)
  from assms(1,4) have k: "k = rid r" by (auto simp: wfRecordings_def list_all_iff)
  have only: "(\<exists>nc \<in> set ?rounds. r_cameraId r = cid (snd nc) \<and>
                (\<exists>t. cutoffDate (localTZA h) (nowAt h (fst nc)) (snd nc) = Some t \<and>
                     startTime r \<le> t)) \<and>
            path r \<in> set files \<and> path r \<notin> set (snd (cleanupOldRecordings h (st, files)))"
    if gone: "(k, r) \<notin> set (recordings (fst (cleanupOldRecordings h (st, files))))"
  proof -
    from assms(4) gone
      sweepRounds_removed[of "(k, r)" "(st, files)" "localTZA h" "nowAt h" ?rounds, OF _ _ ids]
    obtain nc r' where c: "nc \<in> set ?rounds"
      and r': "r' \<in> snd ` set (recordings st)" "k = rid r'" "r_cameraId r' = cid (snd nc)"
        "\<exists>t. cutoffDate (localTZA h) (nowAt h (fst nc)) (snd nc) = Some t \<and> startTime r' \<le> t"
        "path r' \<in> set files"
        "path r' \<notin> set (snd (cleanupOldRecordings h (st, files)))"
      unfolding run by auto
    from wf_unique_row[OF assms(1,4) r'(1,2)] have "r' = r" .
    with c r' show ?thesis by blast
  qed
  have hits: "(k, r) \<notin> set (recordings (fst (cleanupOldRecordings h (st, files))))"
    if m: "\<exists>nc \<in> set ?rounds. r_cameraId r = cid (snd nc) \<and>
                (\<exists>t. cutoffDate (localTZA h) (nowAt h (fst nc)) (snd nc) = Some t \<and>
                     startTime r \<le> t)" and f: "path r \<in> set files"
  proof -
    from distinct_paths_unique[OF assms(3,4)]
    have d: "\<forall>r' \<in> snd ` set (recordings (fst (st, files))). path r' = path r \<longrightarrow> r' = r" by simp
    from f have f': "(k, r) \<in> set (recordings (fst (st, files))) \<longrightarrow> path r \<in> set (snd (st, files))"
      by simp
    from sweepRounds_hits[OF d f' k m] show ?thesis unfolding run .
  qed
  have sub: "set (recordings (fst (cleanupOldRecordings h (st, files)))) \<subseteq> set (recordings st)"
    using sweepRounds_shrinks[of "localTZA h" "nowAt h" ?rounds "(st, files)"]
    unfolding run by simp
  from only hits sub show ?thesis by blast
qed

theorem retention_deletes_only_expired_witness:
  "wfRecordings demoArchive \<and>
   distinct (map (\<lambda>kr. path (snd kr)) (recordings demoArchive)) \<and>
   (''R_old'', demoRecording ''R_old'' 0 (Some 60000)) \<in> set (recordings demoArchive) \<and>
   enumerate 0 (getCameras (collation demoHost) demoArchive) = [(0, demoCamera)] \<and>
   r_cameraId (demoRecording ''R_old'' 0 (Some 60000)) = cid demoCamera \<and>
   cutoffDate (localTZA demoHost) (nowAt demoHost 0) demoCamera = Some (3 * dayMs) \<and>
   startTime (demoRecording ''R_old'' 0 (Some 60000)) \<le> 3 * dayMs \<and>
   path (demoRecording ''R_old'' 0 (Some 60000)) \<in> set demoFiles \<and>
   (''R_old'', demoRecording ''R_old'' 0 (Some 60000)) \<notin>
      set (recordings (fst (cleanupOldRecordings demoHost (demoArchive, demoFiles)))) \<and>
   path (demoRecording ''R_old'' 0 (Some 60000)) \<notin>
      set (snd (cleanupOldRecordings demoHost (demoArchive, demoFiles)))"
proof -
  let ?r = "demoRecording ''R_old'' 0 (Some 60000)"
  have h1: "wfRecordings demoArchive" by code_simp
  have h2: "list_all (\<lambda>camera. cid camera \<noteq> []) (map snd (cameras demoArchive))" by code_simp
  have h3: "distinct (map (\<lambda>kr. path (snd kr)) (recordings demoArchive))" by code_simp
  have h4: "(''R_old'', ?r) \<in> set (recordings demoArchive)" by code_simp
  have c: "enumerate 0 (getCameras (collation demoHost) demoArchive) = [(0, demoCamera)]"
    by (simp add: getCameras_def demoArchive_def demoStorage_def)
  have m1: "r_cameraId ?r = cid demoCamera" by code_simp
  have m2: "cutoffDate (localTZA demoHost) (nowAt demoHost 0) demoCamera = Some (3 * dayMs)"
    by (simp add: cutoffDate_def setDateBack_def timeClip_def utcTime_def localTime_def
        retainDaysOf_def demoHost_def demoCamera_def dayMs_def)
  have m3: "startTime ?r \<le> 3 * dayMs" by (simp add: demoRecording_def dayMs_def)
  have f: "path ?r \<in> set demoFiles" by code_simp
  from c m1 m2 m3
  have m: "\<exists>nc \<in> set (enumerate 0 (getCameras (collation demoHost) demoArchive)).
      r_cameraId ?r = cid (snd nc) \<and>
      (\<exists>t. cutoffDate (localTZA demoHost) (nowAt demoHost (fst nc)) (snd nc) = Some t \<and>
           startTime ?r \<le> t)" by simp
  from retention_deletes_only_expired[OF h1 h2 h3 h4, of demoHost demoFiles] m f
  have "(''R_old'', ?r) \<notin>
      set (recordings (fst (cleanupOldRecordings demoHost (demoArchive, demoFiles)))) \<and>
    path ?r \<notin> set (snd (cleanupOldRecordings demoHost (demoArchive, demoFiles)))"
    by blast
  with h1 h3 h4 c m1 m2 m3 f show ?thesis by blast
qed

text \<open>
  Claim C3 as stated fails: with seven days of retention and the clock at day 10, the
  recording \<open>R_live\<close>, started on day 1 and still in progress (\<open>endTime\<close> is
  \<open>null\<close>), loses its file and its row; only \<open>R_new\<close> of day 9 is left.
\<close>

theorem retention_deletes_active_counterexample:
  "endTime (demoRecording ''R_live'' dayMs None) = None \<and>
   (''R_live'', demoRecording ''R_live'' dayMs None) \<in> set (recordings demoArchive) \<and>
   map fst (recordings (fst (cleanupOldRecordings demoHost (demoArchive, demoFiles)))) =
     [''R_new''] \<and>
   snd (cleanupOldRecordings demoHost (demoArchive, demoFiles)) = [''records/C1/R_new.mp4'']"
  by code_simp

section \<open>Properties of the health monitor\<close>

lemma checkCamera_emitted:
  assumes "getCamera st i = Some camera"
  shows "hm_emitted (checkCamera hn st i h) =
           hm_emitted h @
           (if status camera \<noteq> derivedStatus hn camera
            then [\<lparr> cs_id = i, cs_status = derivedStatus hn camera,
                     cs_fps = p_fps (probeRTSPStream hn (rtspUrl camera) (username camera) (encryptedPassword camera)),
                     cs_bitrate = p_bitrate (probeRTSPStream hn (rtspUrl camera) (username camera) (encryptedPassword camera)),
                     cs_resolution = p_resolution (probeRTSPStream hn (rtspUrl camera) (username camera) (encryptedPassword camera)),
                     cs_lastError = p_error (probeRTSPStream hn (rtspUrl camera) (username camera) (encryptedPassword camera)) \<rparr>]
            else [])"
  using assms by (simp add: checkCamera_def derivedStatus_def Let_def)

text \<open>
  Claim C7 (amended). A probe of a stored camera emits a \<open>camera-status\<close> event exactly
  when the status it derives differs from the recorded one, and \<open>checkCamera\<close> never
  writes the recorded status; so two consecutive ticks on an unchanged camera record emit
  the same number of events each: none when the derived status is the recorded one, two in
  total otherwise.
\<close>

theorem prober_emits_iff_status_differs:
  assumes "getCamera st i = Some camera"
  shows "length (hm_emitted (checkCamera hn st i h)) =
           length (hm_emitted h) + (if status camera \<noteq> derivedStatus hn camera then 1 else 0) \<and>
         length (hm_emitted (checkCamera hn st i (checkCamera hn st i h))) =
           length (hm_emitted h) + (if status camera \<noteq> derivedStatus hn camera then 2 else 0)"
  using checkCamera_emitted[OF assms] by simp

theorem prober_emits_iff_status_differs_witness:
  "getCamera (demoStorage\<lparr> cameras := [(''C1'', demoCamera\<lparr> rtspUrl := ''rtsp://localhost/s'' \<rparr>)] \<rparr>) ''C1''
     = Some (demoCamera\<lparr> rtspUrl := ''rtsp://localhost/s'' \<rparr>) \<and>
   status (demoCamera\<lparr> rtspUrl := ''rtsp://localhost/s'' \<rparr>) = ''offline'' \<and>
   derivedStatus demoHostname (demoCamera\<lparr> rtspUrl := ''rtsp://localhost/s'' \<rparr>) = ''online'' \<and>
   length (hm_emitted (checkCamera demoHostname
      (demoStorage\<lparr> cameras := [(''C1'', demoCamera\<lparr> rtspUrl := ''rtsp://localhost/s'' \<rparr>)] \<rparr>) ''C1''
      demoMonitor)) = 1 \<and>
   length (hm_emitted (checkCamera demoHostname
      (demoStorage\<lparr> cameras := [(''C1'', demoCamera\<lparr> rtspUrl := ''rtsp://localhost/s'' \<rparr>)] \<rparr>) ''C1''
      (checkCamera demoHostname
        (demoStorage\<lparr> cameras := [(''C1'', demoCamera\<lparr> rtspUrl := ''rtsp://localhost/s'' \<rparr>)] \<rparr>) ''C1''
        demoMonitor))) = 2"
proof -
  let ?cam = "demoCamera\<lparr> rtspUrl := ''rtsp://localhost/s'' \<rparr>"
  let ?st = "demoStorage\<lparr> cameras := [(''C1'', ?cam)] \<rparr>"
  have h: "getCamera ?st ''C1'' = Some ?cam" by (simp add: getCamera_def)
  have s: "status ?cam = ''offline''" by (simp add: demoCamera_def)
  have d: "derivedStatus demoHostname ?cam = ''online''" by code_simp
  have e: "hm_emitted demoMonitor = []" by (simp add: demoMonitor_def)
  from prober_emits_iff_status_differs[OF h, of demoHostname demoMonitor] s d e h
  show ?thesis by simp
qed

text \<open>
  Claim C7 as stated fails both ways. A camera recorded \<open>offline\<close> whose probe derives
  \<open>offline\<close> twice gets no event; a camera recorded \<open>online\<close> whose probe derives
  \<open>offline\<close> twice gets two events, one per tick.
\<close>

theorem prober_two_offline_ticks_counterexample:
  "derivedStatus demoHostname demoCamera = ''offline'' \<and>
   hm_emitted (checkCamera demoHostname demoStorage ''C1''
                 (checkCamera demoHostname demoStorage ''C1'' demoMonitor)) = [] \<and>
   derivedStatus demoHostname (demoCamera\<lparr> status := ''online'' \<rparr>) = ''offline'' \<and>
   map cs_status
     (hm_emitted (checkCamera demoHostname
        (demoStorage\<lparr> cameras := [(''C1'', demoCamera\<lparr> status := ''online'' \<rparr>)] \<rparr>) ''C1''
        (checkCamera demoHostname
           (demoStorage\<lparr> cameras := [(''C1'', demoCamera\<lparr> status := ''online'' \<rparr>)] \<rparr>) ''C1''
           demoMonitor))) = [''offline'', ''offline'']"
  by code_simp

section \<open>Properties of the routes\<close>

lemma broadcast_outbox: "outbox (broadcast ev dat s) = outbox s @ framesFor ev dat s"
  by (simp add: broadcast_def framesFor_def)

lemma broadcast_frame:
  "storage (broadcast ev dat s) = storage s" "ffmpeg (broadcast ev dat s) = ffmpeg s"
  "monitored (broadcast ev dat s) = monitored s" "wsClients (broadcast ev dat s) = wsClients s"
  by (simp_all add: broadcast_def)

subsection \<open>Starting a recording twice\<close>

lemma startRecording_conflict:
  assumes "getCamera st i = Some camera" and "map_of (ff_recordings f) i \<noteq> None"
  shows "startRecording env i (st, f) = (Inl AlreadyRecording, st, f)"
  using assms by (simp add: startRecording_def)

text \<open>
  Claim C6 (amended). When the recorder already holds a recording process for a stored
  camera, \<open>startRecording\<close> throws its "already recording" error before anything is
  written, and the route answers 500 "Failed to start recording": the server state is
  unchanged, so no recording row is added and nothing is broadcast.
\<close>

theorem start_record_conflict_is_500:
  assumes "getCamera (storage s) i = Some camera" and "map_of (ff_recordings (ffmpeg s)) i \<noteq> None"
  shows "fst (startRecording env i (storage s, ffmpeg s)) = Inl AlreadyRecording \<and>
         start_record env Authenticated i s =
           (\<lparr> code = 500, body = BMessage ''Failed to start recording'' \<rparr>, s)"
  using assms by (simp add: start_record_def startRecording_conflict)

theorem start_record_conflict_is_500_witness:
  "getCamera (storage demoServer) ''C1'' = Some demoCamera \<and>
   map_of (ff_recordings (ffmpeg demoServer)) ''C1'' = Some (12, ''R_live'') \<and>
   start_record demoEnv Authenticated ''C1'' demoServer =
     (\<lparr> code = 500, body = BMessage ''Failed to start recording'' \<rparr>, demoServer)"
proof -
  have h1: "getCamera (storage demoServer) ''C1'' = Some demoCamera" by code_simp
  have h2: "map_of (ff_recordings (ffmpeg demoServer)) ''C1'' = Some (12, ''R_live'')" by code_simp
  then have h3: "map_of (ff_recordings (ffmpeg demoServer)) ''C1'' \<noteq> None" by simp
  from start_record_conflict_is_500[OF h1 h3, of demoEnv] h1 h2 show ?thesis by blast
qed

text \<open>
  Claim C6 as stated fails: the conflict is answered with status 500, which is no 4xx.
\<close>

theorem start_record_conflict_counterexample:
  "map_of (ff_recordings (ffmpeg demoServer)) ''C1'' = Some (12, ''R_live'') \<and>
   code (fst (start_record demoEnv Authenticated ''C1'' demoServer)) = 500 \<and>
   \<not> (400 \<le> code (fst (start_record demoEnv Authenticated ''C1'' demoServer)) \<and>
      code (fst (start_record demoEnv Authenticated ''C1'' demoServer)) < 500)"
  by code_simp

subsection \<open>Updating a camera\<close>

lemma updateCamera_found:
  assumes "map_of (cameras st) i = Some camera"
  shows "updateCamera now i u st =
           (Some ((spreadUpdates camera u)\<lparr> updatedAt := now \<rparr>),
            st\<lparr> cameras := AList.update i ((spreadUpdates camera u)\<lparr> updatedAt := now \<rparr>) (cameras st) \<rparr>)"
  using assms by (simp add: updateCamera_def Let_def)

lemma put_camera_storage:
  assumes "map_of (cameras (storage s)) i = Some camera"
      and "encryptIfGiven env (u_password u) \<noteq> None"
  shows "storage (snd (put_camera env i (Some u) s)) =
           (storage s)\<lparr> cameras := AList.update i
              ((spreadUpdates camera (finalUpdatesOf u))\<lparr> updatedAt := clock env \<rparr>)
              (cameras (storage s)) \<rparr>"
  using assms
  by (auto simp: put_camera_def updateCamera_found Let_def finalUpdatesOf_def broadcast_def
      split: prod.split option.split)

lemma cid_spreadUpdates [simp]: "cid (spreadUpdates camera u) = cid camera"
  by (simp add: spreadUpdates_def)

lemma put_camera_found:
  assumes "map_of (cameras (storage s)) i = Some camera"
      and "encryptIfGiven env (u_password u) \<noteq> None"
  shows "put_camera env i (Some u) s =
     (let camera' = (spreadUpdates camera (finalUpdatesOf u))\<lparr> updatedAt := clock env \<rparr>;
          st1 = (storage s)\<lparr> cameras := AList.update i camera' (cameras (storage s)) \<rparr>;
          ef = (if restartWanted u then restartStream env st1 (cid camera) (ffmpeg s)
                else (None, ffmpeg s));
          s2 = s\<lparr> storage := st1, ffmpeg := snd ef \<rparr>
      in case fst ef of
           Some e \<Rightarrow> (\<lparr> code = 400, body = BMessage ''Failed to update camera'' \<rparr>, s2)
         | None \<Rightarrow> (\<lparr> code = 200, body = BCamera (safeCamera camera') \<rparr>,
                    broadcast ''camera-updated'' (PCamera camera') s2))"
  using assms
  by (auto simp: put_camera_def updateCamera_found Let_def finalUpdatesOf_def
      split: prod.split option.split)

lemma restartStream_signals:
  assumes "map_of (streams f) c = Some p"
  shows "signalled (snd (restartStream env st c f)) = signalled f @ [p]"
  using assms
  by (simp add: restartStream_def startHLSStream_def stopStream_def Let_def delete_conv'
      split: option.split)

text \<open>
  Claim C10. An update of a stored camera that carries a non-empty password \<open>p\<close>, which
  the handler encrypts to some ciphertext \<open>e\<close>, leaves the stored \<open>encryptedPassword\<close>
  as it was: \<open>e\<close> is dropped, the password itself is taken out of the update, and every
  other submitted field is applied.
\<close>

theorem put_camera_keeps_encryptedPassword:
  assumes "map_of (cameras (storage s)) i = Some camera"
      and "u_password u = Some p" and "truthy p" and "encrypt env p = Some e"
  shows "\<exists>camera'. getCamera (storage (snd (put_camera env i (Some u) s))) i = Some camera' \<and>
           encryptedPassword camera' = encryptedPassword camera \<and>
           password camera' = password camera \<and>
           name camera' = or_keep (u_name u) (name camera) \<and>
           rtspUrl camera' = or_keep (u_rtspUrl u) (rtspUrl camera) \<and>
           username camera' = or_keep (u_username u) (username camera) \<and>
           location camera' = or_keep (u_location u) (location camera) \<and>
           tags camera' = or_keep (u_tags u) (tags camera) \<and>
           enabledProtocols camera' = or_keep (u_enabledProtocols u) (enabledProtocols camera) \<and>
           layout camera' = or_keep (u_layout u) (layout camera) \<and>
           recording camera' = or_keep (u_recording u) (recording camera) \<and>
           anpr camera' = or_keep (u_anpr u) (anpr camera) \<and>
           metadata camera' = or_keep (u_metadata u) (metadata camera) \<and>
           updatedAt camera' = clock env"
proof -
  from assms(2,3,4) have enc: "encryptIfGiven env (u_password u) \<noteq> None"
    by (simp add: encryptIfGiven_def)
  from assms(2,3) have t: "truthy_opt (u_password u)" by (simp add: truthy_opt_def)
  show ?thesis
    using t
    by (simp add: put_camera_storage[OF assms(1) enc] getCamera_def update_conv'
        spreadUpdates_def finalUpdatesOf_def)
qed

theorem put_camera_keeps_encryptedPassword_witness:
  "map_of (cameras (storage (demoServer\<lparr> storage := demoStorage\<lparr> cameras :=
       [(''C1'', demoCamera\<lparr> encryptedPassword := Val ''iv:tag:old'' \<rparr>)] \<rparr> \<rparr>))) ''C1''
     = Some (demoCamera\<lparr> encryptedPassword := Val ''iv:tag:old'' \<rparr>) \<and>
   getCamera (storage (snd (put_camera demoEnv ''C1''
       (Some (noUpdates\<lparr> u_name := Some ''Back Door'', u_password := Some ''new'' \<rparr>))
       (demoServer\<lparr> storage := demoStorage\<lparr> cameras :=
          [(''C1'', demoCamera\<lparr> encryptedPassword := Val ''iv:tag:old'' \<rparr>)] \<rparr> \<rparr>)))) ''C1''
     = Some (demoCamera\<lparr> encryptedPassword := Val ''iv:tag:old'', name := ''Back Door'',
                          updatedAt := 10 * dayMs \<rparr>)"
proof -
  let ?cam = "demoCamera\<lparr> encryptedPassword := Val ''iv:tag:old'' \<rparr>"
  let ?s = "demoServer\<lparr> storage := demoStorage\<lparr> cameras := [(''C1'', ?cam)] \<rparr> \<rparr>"
  let ?u = "noUpdates\<lparr> u_name := Some ''Back Door'', u_password := Some ''new'' \<rparr>"
  have h1: "map_of (cameras (storage ?s)) ''C1'' = Some ?cam" by simp
  have h2: "u_password ?u = Some ''new''" by simp
  have h3: "truthy ''new''" by (simp add: truthy_def)
  have h4: "encrypt demoEnv ''new'' = Some ''iv:tag:new''" by (simp add: demoEnv_def)
  have e: "getCamera (storage (snd (put_camera demoEnv ''C1'' (Some ?u) ?s))) ''C1''
     = Some (demoCamera\<lparr> encryptedPassword := Val ''iv:tag:old'', name := ''Back Door'',
                          updatedAt := 10 * dayMs \<rparr>)"
    by code_simp
  from put_camera_keeps_encryptedPassword[OF h1 h2 h3 h4] e h1 show ?thesis by blast
qed

text \<open>
  Claim C8. The handler does not treat an update with the camera's current content as a
  no-op. For a stored camera whose live child \<open>p\<close> runs, an update that leaves every
  field of the record as it is, but carries a non-empty \<open>rtspUrl\<close> or an
  \<open>enabledProtocols\<close> object (the values the camera already has), makes the handler run
  \<open>restartStream\<close>: \<open>p\<close> is sent \<open>SIGTERM\<close> and dropped from the stream table, and a
  new child is spawned in its place; when the new start fails the request is answered 400
  and the camera is left with no live child. The guard tests that the fields are present,
  where its comment says "Restart streams if configuration changed". When the exit of
  \<open>p\<close> is then delivered (code \<open>null\<close>), its listener drops the camera's entry once
  more, by now the new child's, and sets the timer for yet another start.
\<close>

theorem put_camera_same_content_restarts:
  assumes "map_of (cameras (storage s)) i = Some camera" and "cid camera = i"
      and "spreadUpdates camera (finalUpdatesOf u) = camera" and "restartWanted u"
      and "encryptIfGiven env (u_password u) \<noteq> None"
      and "map_of (streams (ffmpeg s)) i = Some p"
  shows "getCamera (storage (snd (put_camera env i (Some u) s))) i =
           Some (camera\<lparr> updatedAt := clock env \<rparr>) \<and>
         signalled (ffmpeg (snd (put_camera env i (Some u) s))) = signalled (ffmpeg s) @ [p] \<and>
         (buildUrl env camera = None \<and> mkdir_ok env \<longrightarrow>
            code (fst (put_camera env i (Some u) s)) = 200 \<and>
            streams (ffmpeg (snd (put_camera env i (Some u) s))) =
              AList.update i (fresh_pid env) (AList.delete i (streams (ffmpeg s)))) \<and>
         (buildUrl env camera \<noteq> None \<or> \<not> mkdir_ok env \<longrightarrow>
            code (fst (put_camera env i (Some u) s)) = 400 \<and>
            streams (ffmpeg (snd (put_camera env i (Some u) s))) =
              AList.delete i (streams (ffmpeg s))) \<and>
         onStreamExit i None (ffmpeg (snd (put_camera env i (Some u) s))) =
           ((ffmpeg (snd (put_camera env i (Some u) s)))
              \<lparr> streams := AList.delete i (streams (ffmpeg s)) \<rparr>, True)"
proof -
  let ?camera' = "camera\<lparr> updatedAt := clock env \<rparr>"
  let ?st1 = "(storage s)\<lparr> cameras := AList.update i ?camera' (cameras (storage s)) \<rparr>"
  let ?f0 = "(ffmpeg s)\<lparr> streams := AList.delete i (streams (ffmpeg s)),
                          signalled := signalled (ffmpeg s) @ [p] \<rparr>"
  have stop: "stopStream i (ffmpeg s) = ?f0"
    using assms(6) by (simp add: stopStream_def)
  have stop0: "stopStream i ?f0 = ?f0"
    by (simp add: stopStream_def delete_conv')
  have url: "buildUrl env ?camera' = buildUrl env camera"
    by (simp add: buildUrl_def)
  have restart: "restartStream env ?st1 i (ffmpeg s) =
      (if buildUrl env camera = None \<and> mkdir_ok env
       then (None, ?f0\<lparr> streams := AList.update i (fresh_pid env) (AList.delete i (streams (ffmpeg s))) \<rparr>)
       else (Some (case buildUrl env camera of None \<Rightarrow> MkdirFailed | Some e \<Rightarrow> e), ?f0))"
    by (simp add: restartStream_def startHLSStream_def stop stop0 url getCamera_def update_conv'
        Let_def split: option.split)
  have put: "put_camera env i (Some u) s =
      (if buildUrl env camera = None \<and> mkdir_ok env
       then (\<lparr> code = 200, body = BCamera (safeCamera ?camera') \<rparr>,
             broadcast ''camera-updated'' (PCamera ?camera')
               (s\<lparr> storage := ?st1,
                   ffmpeg := ?f0\<lparr> streams := AList.update i (fresh_pid env)
                                               (AList.delete i (streams (ffmpeg s))) \<rparr> \<rparr>))
       else (\<lparr> code = 400, body = BMessage ''Failed to update camera'' \<rparr>,
             s\<lparr> storage := ?st1, ffmpeg := ?f0 \<rparr>))"
    unfolding put_camera_found[OF assms(1,5)] assms(3)
    using assms(2,4) by (simp add: restart Let_def)
  have del: "AList.delete i (AList.update i (fresh_pid env) (AList.delete i (streams (ffmpeg s)))) =
      AList.delete i (streams (ffmpeg s))"
    by (simp add: delete_update_same delete_idem)
  show ?thesis
    unfolding put
    by (simp add: broadcast_frame getCamera_def update_conv' onStreamExit_def del delete_idem)
qed

theorem put_camera_same_content_restarts_witness:
  "map_of (cameras (storage demoServer)) ''C1'' = Some demoCamera \<and>
   rtspUrl demoCamera = ''rtsp://h/s'' \<and>
   map_of (streams (ffmpeg demoServer)) ''C1'' = Some 11 \<and>
   signalled (ffmpeg demoServer) = [] \<and>
   getCamera (storage (snd (put_camera demoEnv ''C1''
      (Some (noUpdates\<lparr> u_rtspUrl := Some ''rtsp://h/s'' \<rparr>)) demoServer))) ''C1''
     = Some (demoCamera\<lparr> updatedAt := 10 * dayMs \<rparr>) \<and>
   code (fst (put_camera demoEnv ''C1''
      (Some (noUpdates\<lparr> u_rtspUrl := Some ''rtsp://h/s'' \<rparr>)) demoServer)) = 200 \<and>
   signalled (ffmpeg (snd (put_camera demoEnv ''C1''
      (Some (noUpdates\<lparr> u_rtspUrl := Some ''rtsp://h/s'' \<rparr>)) demoServer))) = [11] \<and>
   streams (ffmpeg (snd (put_camera demoEnv ''C1''
      (Some (noUpdates\<lparr> u_rtspUrl := Some ''rtsp://h/s'' \<rparr>)) demoServer))) = [(''C1'', 21)] \<and>
   streams (fst (onStreamExit ''C1'' None (ffmpeg (snd (put_camera demoEnv ''C1''
      (Some (noUpdates\<lparr> u_rtspUrl := Some ''rtsp://h/s'' \<rparr>)) demoServer))))) = []"
proof -
  let ?u = "noUpdates\<lparr> u_rtspUrl := Some ''rtsp://h/s'' \<rparr>"
  let ?r = "put_camera demoEnv ''C1'' (Some ?u) demoServer"
  have h1: "map_of (cameras (storage demoServer)) ''C1'' = Some demoCamera" by code_simp
  have h2: "cid demoCamera = ''C1''" by (simp add: demoCamera_def)
  have h3: "spreadUpdates demoCamera (finalUpdatesOf ?u) = demoCamera"
    by (simp add: spreadUpdates_def finalUpdatesOf_def noUpdates_def or_keep_def truthy_opt_def
        demoCamera_def)
  have h4: "restartWanted ?u" by (simp add: restartWanted_def truthy_opt_def truthy_def)
  have h5: "encryptIfGiven demoEnv (u_password ?u) \<noteq> None"
    by (simp add: encryptIfGiven_def noUpdates_def)
  have h6: "map_of (streams (ffmpeg demoServer)) ''C1'' = Some 11" by code_simp
  have url: "rtspUrl demoCamera = ''rtsp://h/s''" by (simp add: demoCamera_def)
  have g: "signalled (ffmpeg demoServer) = []" "streams (ffmpeg demoServer) = [(''C1'', 11)]"
    by (simp_all add: demoServer_def)
  have ok: "buildUrl demoEnv demoCamera = None \<and> mkdir_ok demoEnv"
    by (simp add: buildUrl_def demoCamera_def demoEnv_def truthy_js_def)
  have c: "clock demoEnv = 10 * dayMs" "fresh_pid demoEnv = 21" by (simp_all add: demoEnv_def)
  from put_camera_same_content_restarts[OF h1 h2 h3 h4 h5 h6] ok
  have a: "getCamera (storage (snd ?r)) ''C1'' = Some (demoCamera\<lparr> updatedAt := clock demoEnv \<rparr>)"
    "signalled (ffmpeg (snd ?r)) = signalled (ffmpeg demoServer) @ [11]"
    "code (fst ?r) = 200"
    "streams (ffmpeg (snd ?r)) =
       AList.update ''C1'' (fresh_pid demoEnv) (AList.delete ''C1'' (streams (ffmpeg demoServer)))"
    "onStreamExit ''C1'' None (ffmpeg (snd ?r)) =
       ((ffmpeg (snd ?r))\<lparr> streams := AList.delete ''C1'' (streams (ffmpeg demoServer)) \<rparr>, True)"
    by blast+
  from a(1) c have b1: "getCamera (storage (snd ?r)) ''C1'' = Some (demoCamera\<lparr> updatedAt := 10 * dayMs \<rparr>)"
    by simp
  from a(2) g have b2: "signalled (ffmpeg (snd ?r)) = [11]" by simp
  from a(4) g c have b3: "streams (ffmpeg (snd ?r)) = [(''C1'', 21)]" by simp
  from a(5) g have b4: "streams (fst (onStreamExit ''C1'' None (ffmpeg (snd ?r)))) = []" by simp
  from h1 url h6 g(1) b1 a(3) b2 b3 b4 show ?thesis by blast
qed

subsection \<open>What the sockets and the HTTP client are sent\<close>

lemma createCamera_stored:
  "getCamera (snd (createCamera newId now ins st)) newId = Some (fst (createCamera newId now ins st))"
  by (simp add: createCamera_def getCamera_def Let_def update_conv')

lemma createCamera_cid: "cid (fst (createCamera newId now ins st)) = newId"
  by (simp add: createCamera_def Let_def)

lemma post_camera_created:
  assumes "post_camera env (Some d) s = (resp, s')" and "code resp = 201"
  shows "\<exists>camera. getCamera (storage s') (fresh_id env) = Some camera \<and>
           outbox s' = outbox s @ framesFor ''camera-added'' (PCamera camera) s \<and>
           body resp = BCamera (safeCamera camera)"
proof -
  from assms obtain ep where ep: "encryptIfGiven env (in_password d) = Some ep"
    by (cases "encryptIfGiven env (in_password d)") (auto simp: post_camera_def)
  let ?ins = "d\<lparr> in_password := None,
                  in_encryptedPassword := (if truthy_opt ep then ep else None) \<rparr>"
  obtain camera st1 where c: "createCamera (fresh_id env) (clock env) ?ins (storage s) = (camera, st1)"
    by (cases "createCamera (fresh_id env) (clock env) ?ins (storage s)") auto
  have g: "getCamera st1 (fresh_id env) = Some camera"
    using createCamera_stored[of "fresh_id env" "clock env" ?ins "storage s"] c by simp
  from assms ep c g show ?thesis
    by (auto simp: post_camera_def Let_def broadcast_outbox broadcast_frame framesFor_def
        split: prod.splits option.splits if_splits)
qed

lemma put_camera_updated:
  assumes "put_camera env i (Some u) s = (resp, s')" and "code resp = 200"
  shows "\<exists>camera. getCamera (storage s') i = Some camera \<and>
           outbox s' = outbox s @ framesFor ''camera-updated'' (PCamera camera) s \<and>
           body resp = BCamera (safeCamera camera)"
proof -
  from assms have enc: "encryptIfGiven env (u_password u) \<noteq> None"
    by (cases "encryptIfGiven env (u_password u)") (auto simp: put_camera_def)
  show ?thesis
  proof (cases "map_of (cameras (storage s)) i")
    case None
    with assms enc show ?thesis
      by (auto simp: put_camera_def updateCamera_def Let_def split: prod.splits)
  next
    case (Some camera)
    from assms show ?thesis
      unfolding put_camera_found[OF Some enc]
      by (auto simp: Let_def broadcast_outbox broadcast_frame framesFor_def getCamera_def
          update_conv' split: option.splits)
  qed
qed

lemma broadcast_nobody: "wsClients s = [] \<Longrightarrow> broadcast ev dat s = s"
  by (simp add: broadcast_def)

lemma post_camera_sockets:
  "wsClients (snd (post_camera env parsed s)) = wsClients s \<and>
   (wsClients s = [] \<longrightarrow> outbox (snd (post_camera env parsed s)) = outbox s)"
  by (auto simp: post_camera_def Let_def broadcast_def split: option.splits prod.splits)

lemma put_camera_sockets:
  "wsClients (snd (put_camera env i parsed s)) = wsClients s \<and>
   (wsClients s = [] \<longrightarrow> outbox (snd (put_camera env i parsed s)) = outbox s)"
  by (auto simp: put_camera_def Let_def broadcast_def split: option.splits prod.splits)

lemma delete_camera_sockets:
  "wsClients (snd (delete_camera i s)) = wsClients s \<and>
   (wsClients s = [] \<longrightarrow> outbox (snd (delete_camera i s)) = outbox s)"
  by (auto simp: delete_camera_def removeCamera_def Let_def broadcast_def split: prod.splits)

lemma start_record_sockets:
  "wsClients (snd (start_record env auth i s)) = wsClients s \<and>
   (wsClients s = [] \<longrightarrow> outbox (snd (start_record env auth i s)) = outbox s)"
  by (auto simp: start_record_def Let_def broadcast_def
      split: Auth.splits option.splits prod.splits sum.splits)

lemma serve_sockets:
  assumes "wsClients s = []"
  shows "wsClients (serve rq s) = [] \<and> outbox (serve rq s) = outbox s"
  using assms post_camera_sockets put_camera_sockets delete_camera_sockets start_record_sockets
  by (cases rq) simp_all

lemma fold_serve_sockets:
  assumes "wsClients s = []"
  shows "wsClients (fold serve reqs s) = [] \<and> outbox (fold serve reqs s) = outbox s"
  using assms
proof (induction reqs arbitrary: s)
  case Nil
  then show ?case by simp
next
  case (Cons rq reqs)
  from serve_sockets[OF Cons.prems, of rq] Cons.IH[of "serve rq s"]
  show ?case by simp
qed

text \<open>
  Claim C9. No frame reaches a connected client. \<open>broadcast\<close> is handed the camera record
  as the store holds it, unmasked, and sends it to the sockets of \<open>wsClients\<close>; but
  \<open>registerRoutes\<close> starts with \<open>wsClients\<close> empty and nothing ever adds a socket to it,
  the \<open>connection\<close> handler included. So whatever clients connect and whatever requests
  are served, \<open>wsClients\<close> stays empty and \<open>ws.send\<close> is never called.
\<close>

theorem no_frame_reaches_a_client:
  "wsClients (fold serve reqs (registerRoutes st f m)) = [] \<and>
   outbox (fold serve reqs (registerRoutes st f m)) = []"
  using fold_serve_sockets[of "registerRoutes st f m" reqs]
  by (simp add: registerRoutes_def)

theorem no_frame_reaches_a_client_witness:
  "connectedAfter [WsConnect 1, PostCamera demoEnv (Some demoInsert),
      PutCamera demoEnv ''N1'' (Some (noUpdates\<lparr> u_name := Some ''Back Door'' \<rparr>))] = [1] \<and>
   code (fst (post_camera demoEnv (Some demoInsert)
      (fold serve [WsConnect 1] (registerRoutes demoStorage (ffmpeg demoServer) [''C1''])))) = 201 \<and>
   code (fst (put_camera demoEnv ''N1'' (Some (noUpdates\<lparr> u_name := Some ''Back Door'' \<rparr>))
      (fold serve [WsConnect 1, PostCamera demoEnv (Some demoInsert)]
         (registerRoutes demoStorage (ffmpeg demoServer) [''C1''])))) = 200 \<and>
   getCamera (storage (fold serve [WsConnect 1, PostCamera demoEnv (Some demoInsert)]
      (registerRoutes demoStorage (ffmpeg demoServer) [''C1'']))) ''N1'' = Some demoCreated \<and>
   username demoCreated = Some ''admin'' \<and>
   body (fst (post_camera demoEnv (Some demoInsert)
      (fold serve [WsConnect 1] (registerRoutes demoStorage (ffmpeg demoServer) [''C1''])))) =
     BCamera (demoCreated\<lparr> encryptedPassword := Undefined, username := Some ''[HIDDEN]'' \<rparr>) \<and>
   outbox (fold serve [WsConnect 1, PostCamera demoEnv (Some demoInsert),
      PutCamera demoEnv ''N1'' (Some (noUpdates\<lparr> u_name := Some ''Back Door'' \<rparr>))]
      (registerRoutes demoStorage (ffmpeg demoServer) [''C1''])) = []"
proof -
  let ?boot = "registerRoutes demoStorage (ffmpeg demoServer) [''C1'']"
  let ?put = "PutCamera demoEnv ''N1'' (Some (noUpdates\<lparr> u_name := Some ''Back Door'' \<rparr>))"
  have c: "connectedAfter [WsConnect 1, PostCamera demoEnv (Some demoInsert), ?put] = [1]"
    by (simp add: connectedAfter_def)
  have p: "code (fst (post_camera demoEnv (Some demoInsert) (fold serve [WsConnect 1] ?boot))) = 201"
    by code_simp
  have u: "code (fst (put_camera demoEnv ''N1'' (Some (noUpdates\<lparr> u_name := Some ''Back Door'' \<rparr>))
      (fold serve [WsConnect 1, PostCamera demoEnv (Some demoInsert)] ?boot))) = 200"
    by code_simp
  have d: "getCamera (storage (fold serve [WsConnect 1, PostCamera demoEnv (Some demoInsert)] ?boot))
      ''N1'' = Some demoCreated"
    by code_simp
  have n: "username demoCreated = Some ''admin''" by (simp add: demoCreated_def)
  have b: "body (fst (post_camera demoEnv (Some demoInsert) (fold serve [WsConnect 1] ?boot))) =
     BCamera (demoCreated\<lparr> encryptedPassword := Undefined, username := Some ''[HIDDEN]'' \<rparr>)"
    by code_simp
  from no_frame_reaches_a_client[of "[WsConnect 1, PostCamera demoEnv (Some demoInsert), ?put]"
      demoStorage "ffmpeg demoServer" "[''C1'']"]
  have "outbox (fold serve [WsConnect 1, PostCamera demoEnv (Some demoInsert), ?put] ?boot) = []"
    by blast
  with c p u d n b show ?thesis by blast
qed

subsection \<open>Deleting a camera\<close>

lemma delete_absent: "map_of al k = None \<Longrightarrow> AList.delete k al = al"
  by (induction al) (auto split: if_splits)

lemma delete_camera_absent:
  assumes "map_of (cameras (storage s)) i = None"
  shows "delete_camera i s = (\<lparr> code = 404, body = BMessage ''Camera not found'' \<rparr>, s)"
  using assms by (simp add: delete_camera_def deleteCamera_def delete_absent)

lemma delete_camera_present:
  assumes "map_of (cameras (storage s)) i = Some camera"
  shows "delete_camera i s =
     (\<lparr> code = 204, body = BEmpty \<rparr>,
      broadcast ''camera-deleted'' (PCameraId i)
        (s\<lparr> storage := (storage s)\<lparr> cameras := AList.delete i (cameras (storage s)) \<rparr>,
            monitored := removeAll i (monitored s),
            ffmpeg := stopStream i (ffmpeg s) \<rparr>))"
  using assms by (simp add: delete_camera_def deleteCamera_def removeCamera_def Let_def)

text \<open>
  Claim C4. \<open>DELETE /api/cameras/:id\<close> neither stops the camera's recording nor removes
  its rows. For a stored camera whose recording process \<open>p\<close> runs, the request is
  answered 204 and the camera row is gone, but the recorder still holds \<open>p\<close>, the only
  process signalled is the live child (if one runs), and the recording rows, the row in
  progress with its missing \<open>endTime\<close> included, and the ANPR rows are all as they were:
  the handler never calls \<open>stopRecording\<close>, and \<open>deleteCamera\<close> of the store deletes the
  camera's entry only, where the schema declares both tables \<open>onDelete: cascade\<close>.
\<close>

theorem delete_camera_keeps_recording:
  assumes "map_of (cameras (storage s)) i = Some camera"
      and "map_of (ff_recordings (ffmpeg s)) i = Some (p, recordingId)"
  shows "code (fst (delete_camera i s)) = 204 \<and>
         getCamera (storage (snd (delete_camera i s))) i = None \<and>
         map_of (ff_recordings (ffmpeg (snd (delete_camera i s)))) i = Some (p, recordingId) \<and>
         ff_recordings (ffmpeg (snd (delete_camera i s))) = ff_recordings (ffmpeg s) \<and>
         signalled (ffmpeg (snd (delete_camera i s))) =
           signalled (ffmpeg s) @ (case map_of (streams (ffmpeg s)) i of None \<Rightarrow> [] | Some q \<Rightarrow> [q]) \<and>
         recordings (storage (snd (delete_camera i s))) = recordings (storage s) \<and>
         anprEvents (storage (snd (delete_camera i s))) = anprEvents (storage s)"
  unfolding delete_camera_present[OF assms(1)]
  using assms(2)
  by (auto simp: broadcast_frame getCamera_def delete_conv' stopStream_def split: option.splits)

theorem delete_camera_keeps_recording_witness:
  "map_of (cameras (storage demoServer)) ''C1'' = Some demoCamera \<and>
   map_of (ff_recordings (ffmpeg demoServer)) ''C1'' = Some (12, ''R_live'') \<and>
   map_of (streams (ffmpeg demoServer)) ''C1'' = Some 11 \<and>
   map_option endTime (map_of (recordings (storage demoServer)) ''R_live'') = Some None \<and>
   code (fst (delete_camera ''C1'' demoServer)) = 204 \<and>
   getCamera (storage (snd (delete_camera ''C1'' demoServer))) ''C1'' = None \<and>
   ff_recordings (ffmpeg (snd (delete_camera ''C1'' demoServer))) = [(''C1'', 12, ''R_live'')] \<and>
   signalled (ffmpeg (snd (delete_camera ''C1'' demoServer))) = [11] \<and>
   map_option endTime
     (map_of (recordings (storage (snd (delete_camera ''C1'' demoServer)))) ''R_live'') = Some None \<and>
   map fst (recordings (storage (snd (delete_camera ''C1'' demoServer)))) =
     [''R_old'', ''R_live'', ''R_new''] \<and>
   map fst (anprEvents (storage (snd (delete_camera ''C1'' demoServer)))) = [''e1'']"
proof -
  let ?s' = "snd (delete_camera ''C1'' demoServer)"
  have h1: "map_of (cameras (storage demoServer)) ''C1'' = Some demoCamera" by code_simp
  have h2: "map_of (ff_recordings (ffmpeg demoServer)) ''C1'' = Some (12, ''R_live'')" by code_simp
  have g: "signalled (ffmpeg demoServer) = []" "map_of (streams (ffmpeg demoServer)) ''C1'' = Some 11"
    "ff_recordings (ffmpeg demoServer) = [(''C1'', 12, ''R_live'')]"
    by (simp_all add: demoServer_def)
  have r: "map_option endTime (map_of (recordings (storage demoServer)) ''R_live'') = Some None"
    "map fst (recordings (storage demoServer)) = [''R_old'', ''R_live'', ''R_new'']"
    "map fst (anprEvents (storage demoServer)) = [''e1'']"
    by code_simp+
  from delete_camera_keeps_recording[OF h1 h2]
  have a: "code (fst (delete_camera ''C1'' demoServer)) = 204"
    "getCamera (storage ?s') ''C1'' = None"
    "ff_recordings (ffmpeg ?s') = ff_recordings (ffmpeg demoServer)"
    "signalled (ffmpeg ?s') = signalled (ffmpeg demoServer) @
       (case map_of (streams (ffmpeg demoServer)) ''C1'' of None \<Rightarrow> [] | Some q \<Rightarrow> [q])"
    "recordings (storage ?s') = recordings (storage demoServer)"
    "anprEvents (storage ?s') = anprEvents (storage demoServer)"
    by blast+
  from a(3) g have b1: "ff_recordings (ffmpeg ?s') = [(''C1'', 12, ''R_live'')]" by simp
  from a(4) g have b2: "signalled (ffmpeg ?s') = [11]" by simp
  from a(5) r have b3: "map_option endTime (map_of (recordings (storage ?s')) ''R_live'') = Some None"
    "map fst (recordings (storage ?s')) = [''R_old'', ''R_live'', ''R_new'']" by simp_all
  from a(6) r have b4: "map fst (anprEvents (storage ?s')) = [''e1'']" by simp
  from h1 h2 g(2) r(1) a(1,2) b1 b2 b3 b4 show ?thesis by blast
qed

section \<open>Properties of the credential encryption\<close>

lemma hex_chars_table:
  "list_all (\<lambda>n. is_hex_digit (hex_chars ! n) \<and> hex_val (hex_chars ! n) = int n \<and>
                 hex_chars ! n \<noteq> CHR '':'') [0..<16]"
  by code_simp

lemma hex_chars_nth:
  assumes "n < 16"
  shows "is_hex_digit (hex_chars ! n) \<and> hex_val (hex_chars ! n) = int n \<and> hex_chars ! n \<noteq> CHR '':''"
proof -
  from assms have "n \<in> set [0..<16]" by simp
  with hex_chars_table show ?thesis unfolding list_all_iff by blast
qed

lemma of_char_div16: "of_char (b :: char) div 16 < (16 :: nat)"
proof -
  have "of_char b < (16 * 16 :: nat)" by simp
  then show ?thesis by (rule less_mult_imp_div_less)
qed

lemma from_hex_to_hex: "from_hex (to_hex bs) = bs"
proof (induction bs)
  case Nil
  then show ?case by (simp add: to_hex_def)
next
  case (Cons b bs)
  let ?n = "of_char b :: nat"
  have hi: "is_hex_digit (hex_chars ! (?n div 16))" "hex_val (hex_chars ! (?n div 16)) = int (?n div 16)"
    using hex_chars_nth[OF of_char_div16[of b]] by simp_all
  have lo: "is_hex_digit (hex_chars ! (?n mod 16))" "hex_val (hex_chars ! (?n mod 16)) = int (?n mod 16)"
    using hex_chars_nth[of "?n mod 16"] by simp_all
  have "16 * int (?n div 16) + int (?n mod 16) = int ?n"
    by (metis of_nat_add of_nat_mult of_nat_numeral mult_div_mod_eq)
  then have "nat (16 * int (?n div 16) + int (?n mod 16)) = ?n" by simp
  then have "char_of (nat (16 * int (?n div 16) + int (?n mod 16))) = b" by simp
  moreover have "to_hex (b # bs) = hex_chars ! (?n div 16) # hex_chars ! (?n mod 16) # to_hex bs"
    by (simp add: to_hex_def)
  ultimately show ?case using hi lo Cons.IH by simp
qed

lemma to_hex_no_colon: "CHR '':'' \<notin> set (to_hex bs)"
proof (induction bs)
  case Nil
  then show ?case by (simp add: to_hex_def)
next
  case (Cons b bs)
  let ?n = "of_char b :: nat"
  have "hex_chars ! (?n div 16) \<noteq> CHR '':''" using hex_chars_nth[OF of_char_div16[of b]] by simp
  moreover have "hex_chars ! (?n mod 16) \<noteq> CHR '':''" using hex_chars_nth[of "?n mod 16"] by simp
  moreover have "to_hex (b # bs) = hex_chars ! (?n div 16) # hex_chars ! (?n mod 16) # to_hex bs"
    by (simp add: to_hex_def)
  ultimately show ?case using Cons.IH by auto
qed

lemma length_to_hex: "length (to_hex bs) = 2 * length bs"
  by (induction bs) (simp_all add: to_hex_def)

lemma split_on_nonempty: "split_on c s \<noteq> []"
  by (induction s) (auto split: list.split)

lemma split_on_prefix:
  "c \<notin> set a \<Longrightarrow> split_on c (a @ c # rest) = a # split_on c rest"
  by (induction a) auto

lemma split_on_plain: "c \<notin> set a \<Longrightarrow> split_on c a = [a]"
  by (induction a) auto

lemma decrypt_skips_first_field:
  assumes "CHR '':'' \<notin> set a"
  shows "decryptCredentials c key (a @ CHR '':'' # rest) =
           (case split_on CHR '':'' rest of
              authTagHex # encrypted # _ \<Rightarrow> openWith c key (from_hex authTagHex) (from_hex encrypted)
            | _ \<Rightarrow> None)"
  by (simp add: decryptCredentials_def split_on_prefix[OF assms] Let_def split: list.split)

lemma encrypt_shape:
  "encryptCredentials c key iv p =
     to_hex iv @ CHR '':'' # (to_hex (snd (sealWith c key p)) @ CHR '':'' # to_hex (fst (sealWith c key p)))"
  by (simp add: encryptCredentials_def split: prod.split)

lemma split_sealed:
  "split_on CHR '':'' (to_hex t @ CHR '':'' # to_hex e) = [to_hex t, to_hex e]"
  by (simp add: split_on_prefix[OF to_hex_no_colon] split_on_plain[OF to_hex_no_colon])

text \<open>
  Claim C5. Whatever cipher is plugged in, as long as it opens what it sealed for the
  plaintext at hand, \<open>decryptCredentials\<close> returns the plaintext of a sealed credential
  (the round trip), and it returns the same plaintext when the IV field of the ciphertext
  is replaced by any other bytes: the IV is written and parsed but never given to the
  cipher, so flipping a byte of it does not make opening fail.
\<close>

theorem decrypt_accepts_changed_iv:
  assumes "openWith c key (snd (sealWith c key p)) (fst (sealWith c key p)) = Some p"
  shows "decryptCredentials c key (encryptCredentials c key iv p) = Some p \<and>
         decryptCredentials c key
           (to_hex iv' @ drop (length (to_hex iv)) (encryptCredentials c key iv p)) = Some p"
proof -
  have "decryptCredentials c key (to_hex v @ CHR '':'' #
          (to_hex (snd (sealWith c key p)) @ CHR '':'' # to_hex (fst (sealWith c key p)))) = Some p"
    for v
    using assms
    by (simp add: decrypt_skips_first_field[OF to_hex_no_colon] split_sealed from_hex_to_hex)
  then show ?thesis by (simp add: encrypt_shape)
qed

theorem decrypt_accepts_changed_iv_witness:
  "openWith toyCrypto ''k'' (snd (sealWith toyCrypto ''k'' ''secret''))
     (fst (sealWith toyCrypto ''k'' ''secret'')) = Some ''secret'' \<and>
   encryptCredentials toyCrypto ''k'' [CHR 0x00, CHR 0x01] ''secret'' = ''0001:6b:736563726574'' \<and>
   decryptCredentials toyCrypto ''k'' ''0001:6b:736563726574'' = Some ''secret'' \<and>
   decryptCredentials toyCrypto ''k'' ''ff01:6b:736563726574'' = Some ''secret'' \<and>
   decryptCredentials toyCrypto ''k'' ''0001:6c:736563726574'' = None"
proof -
  have h: "openWith toyCrypto ''k'' (snd (sealWith toyCrypto ''k'' ''secret''))
     (fst (sealWith toyCrypto ''k'' ''secret'')) = Some ''secret''" by code_simp
  have e: "encryptCredentials toyCrypto ''k'' [CHR 0x00, CHR 0x01] ''secret'' = ''0001:6b:736563726574''"
    by code_simp
  have t: "to_hex [CHR 0xFF, CHR 0x01] @ drop (length (to_hex [CHR 0x00, CHR 0x01]))
             ''0001:6b:736563726574'' = ''ff01:6b:736563726574''" by code_simp
  have n: "decryptCredentials toyCrypto ''k'' ''0001:6c:736563726574'' = None" by code_simp
  from decrypt_accepts_changed_iv[OF h, of "[CHR 0x00, CHR 0x01]" "[CHR 0xFF, CHR 0x01]"]
  have "decryptCredentials toyCrypto ''k'' ''0001:6b:736563726574'' = Some ''secret'' \<and>
        decryptCredentials toyCrypto ''k'' ''ff01:6b:736563726574'' = Some ''secret''"
    unfolding e t .
  with h e n show ?thesis by blast
qed

end
